theory Spec2Isabelle
  imports Main
begin

section \<open>PicoCoin node orchestrator (pico-cli.py)\<close>

text \<open>
  The development embeds the node orchestrator of \<^verbatim>\<open>pico-cli.py\<close>: the classes
  \<^verbatim>\<open>CLI\<close>, \<^verbatim>\<open>CoreServer\<close> and \<^verbatim>\<open>MiningServer\<close> and the transaction construction of
  the main block. The modules \<^verbatim>\<open>core\<close> and \<^verbatim>\<open>miner\<close> that the file imports are its
  collaborators: their operations are either fields of the record \<open>core_ops\<close> (taken as
  parameters) or, where a property talks about what they return, definitions written
  from the specification and marked as such.

  Conventions of the embedding.
  \<^item> Every \<^verbatim>\<open>await self.net.send(msg)\<close> and \<^verbatim>\<open>await self._dict_to_disk(obj, path)\<close>
    appends an event to the field \<open>out\<close> of the node state, in program order.
    Console output (\<^verbatim>\<open>print\<close>) is not recorded.
  \<^item> A handler runs without interleaving: the other tasks of the event loop act only
    at the \<^verbatim>\<open>await asyncio.sleep(0)\<close> of \<^verbatim>\<open>update_block\<close>, where they are an explicit
    schedule of state transformers.
  \<^item> A raised exception is the result \<open>Raised e s\<close>, with the state reached when it
    was raised.
\<close>

subsection \<open>Python values on the wire\<close>

text \<open>
  The values \<^verbatim>\<open>json.loads\<close> produces (numbers restricted to integers). A dictionary
  is the list of its items; keys of a Python dictionary are unique, and \<open>dict_get\<close>
  reads the first item with the key.
\<close>

datatype pyval =
    PNone
  | PBool bool
  | PInt int
  | PStr string
  | PList "pyval list"
  | PDict "(string \<times> pyval) list"

text \<open>Python truth value testing, as used by \<^verbatim>\<open>if data.get(key)\<close> and \<^verbatim>\<open>while ...\<close>.\<close>

fun truthy :: "pyval \<Rightarrow> bool" where
  "truthy PNone = False"
| "truthy (PBool b) = b"
| "truthy (PInt n) = (n \<noteq> 0)"
| "truthy (PStr s) = (s \<noteq> [])"
| "truthy (PList xs) = (xs \<noteq> [])"
| "truthy (PDict kvs) = (kvs \<noteq> [])"

text \<open>\<^verbatim>\<open>data.get(key)\<close>: the value, or \<^verbatim>\<open>None\<close> when the key is absent.\<close>

definition dict_get :: "(string \<times> pyval) list \<Rightarrow> string \<Rightarrow> pyval" where
  "dict_get data key = (case map_of data key of None \<Rightarrow> PNone | Some v \<Rightarrow> v)"

datatype error = KeyError | TypeError | ValueError | DaciteError | SystemExit

datatype 'a outcome = Returned 'a | Raised error 'a

subsection \<open>Ledger entities\<close>

datatype Action =
    Invoice int
  | Payment int
  | Message string
  | Reward int string

text \<open>
  \<^verbatim>\<open>Transaction(from_adr=..., to_adr=..., act=..., hash=..., sign=...)\<close>: the field
  names are those of the constructor calls in the source.
\<close>

record Transaction =
  from_adr :: "string option"
  to_adr :: string
  act :: Action
  hash :: "string option"
  sign :: "string option"

text \<open>
  Modelled from the spec: the class \<^verbatim>\<open>Block\<close> of \<^verbatim>\<open>core\<close> is not in the source at
  hand; the source reads \<^verbatim>\<open>block.pow.solver\<close> only. The fields are those of the
  specification's Block, \<open>{previousHash, transactions, proof: {nonce, solverAddress}}\<close>.
\<close>

record Pow =
  nonce :: "int option"
  solver :: string

record Block =
  prev :: "string option"
  transactions :: "Transaction list"
  pow :: Pow

text \<open>\<^verbatim>\<open>Blockchain(ver='0.1', blocks={}, hash=None)\<close>.\<close>

record Blockchain =
  ver :: string
  blocks :: "(string \<times> Block) list"
  chain_hash :: "string option"

text \<open>
  \<^verbatim>\<open>Peer(ipv6, port)\<close>. The handler of a \<^verbatim>\<open>peers\<close> message builds peers from
  whatever values the message holds, so both fields are Python values.
\<close>

record Peer =
  ipv6 :: pyval
  port :: pyval

text \<open>\<^verbatim>\<open>Net(hash=None)\<close>, with its peer list and the address \<^verbatim>\<open>net.ipv6\<close> of the node.\<close>

record Net =
  net_hash :: "string option"
  peers :: "Peer list"
  net_ipv6 :: string

record User =
  pub :: string

text \<open>\<^verbatim>\<open>BlockCheck\<close>: the source names the member \<^verbatim>\<open>OK\<close> only; every other member is
  \<open>NotOK\<close> with an index.\<close>

datatype BlockCheck = OK | NotOK nat

subsection \<open>Serialisation (\<^verbatim>\<open>to_dict\<close>)\<close>

text \<open>
  Modelled from the spec: the \<^verbatim>\<open>to_dict\<close> methods of \<^verbatim>\<open>core\<close> are not in the source at
  hand. The shapes are the records of the specification's external interfaces: the peer
  set \<open>{hash, peers: [{ipv6, port}]}\<close>, the blockchain \<open>{ver, blocks, hash}\<close>, the block
  record \<open>{previousHash, transactions, proof: {nonce, solverAddress}}\<close> and the
  transaction record \<open>{fromAddress, toAddress, action: {kind, fields}, hash, signature}\<close>.
\<close>

definition opt_str :: "string option \<Rightarrow> pyval" where
  "opt_str x = (case x of None \<Rightarrow> PNone | Some s \<Rightarrow> PStr s)"

definition opt_int :: "int option \<Rightarrow> pyval" where
  "opt_int x = (case x of None \<Rightarrow> PNone | Some n \<Rightarrow> PInt n)"

definition Peer_to_dict :: "Peer \<Rightarrow> pyval" where
  "Peer_to_dict p = PDict [(''ipv6'', ipv6 p), (''port'', port p)]"

definition Net_to_dict :: "Net \<Rightarrow> pyval" where
  "Net_to_dict n =
     PDict [(''hash'', opt_str (net_hash n)), (''peers'', PList (map Peer_to_dict (peers n)))]"

fun Action_to_dict :: "Action \<Rightarrow> pyval" where
  "Action_to_dict (Invoice n) = PDict [(''kind'', PStr ''Invoice''), (''amount'', PInt n)]"
| "Action_to_dict (Payment n) = PDict [(''kind'', PStr ''Payment''), (''amount'', PInt n)]"
| "Action_to_dict (Message m) = PDict [(''kind'', PStr ''Message''), (''text'', PStr m)]"
| "Action_to_dict (Reward n h) =
     PDict [(''kind'', PStr ''Reward''), (''amount'', PInt n), (''producedBlockHash'', PStr h)]"

definition Transaction_to_dict :: "Transaction \<Rightarrow> pyval" where
  "Transaction_to_dict t =
     PDict [(''fromAddress'', opt_str (from_adr t)), (''toAddress'', PStr (to_adr t)),
            (''action'', Action_to_dict (act t)), (''hash'', opt_str (hash t)),
            (''signature'', opt_str (sign t))]"

definition Block_to_dict :: "Block \<Rightarrow> pyval" where
  "Block_to_dict b =
     PDict [(''previousHash'', opt_str (prev b)),
            (''transactions'', PList (map Transaction_to_dict (transactions b))),
            (''proof'', PDict [(''nonce'', opt_int (nonce (pow b))),
                               (''solverAddress'', PStr (solver (pow b)))])]"

definition Blockchain_to_dict :: "Blockchain \<Rightarrow> pyval" where
  "Blockchain_to_dict c =
     PDict [(''ver'', PStr (ver c)),
            (''blocks'', PDict (map (\<lambda>(h, b). (h, Block_to_dict b)) (blocks c))),
            (''hash'', opt_str (chain_hash c))]"

subsection \<open>The collaborators\<close>

text \<open>
  The operations of \<^verbatim>\<open>core\<close>, \<^verbatim>\<open>miner\<close> and \<^verbatim>\<open>dacite\<close> that the orchestrator calls and
  whose bodies are not in the source at hand. A method that mutates its object returns
  the new object; \<^verbatim>\<open>from_dict\<close> and \<^verbatim>\<open>check_passwd\<close> return \<open>None\<close> where they raise;
  \<^verbatim>\<open>work\<close> returns \<open>None\<close> where the search does not end. \<^verbatim>\<open>get_block_confirms\<close>
  returns a Python value, of which the source uses the truth value only.
\<close>

record core_ops =
  check_block :: "Blockchain \<Rightarrow> Block \<Rightarrow> BlockCheck"
  add_block :: "Blockchain \<Rightarrow> Block \<Rightarrow> bool \<times> Blockchain"
  get_block_confirms :: "Blockchain \<Rightarrow> Block option \<Rightarrow> pyval"
  reward :: "Blockchain \<Rightarrow> int"
  dict_hash :: "Block \<Rightarrow> string"
  Block_from_dict :: "pyval \<Rightarrow> Block option"
  Transaction_from_dict :: "pyval \<Rightarrow> Transaction option"
  check_passwd :: "User \<Rightarrow> string \<Rightarrow> string option"
  sign_trans :: "Transaction \<Rightarrow> User \<Rightarrow> string \<Rightarrow> Transaction"
  work :: "Block \<Rightarrow> Block option"


text \<open>
  Modelled from the spec: \<^verbatim>\<open>Net.update_peers\<close> is not in the source at hand. The
  specification's \<open>mergePeers(candidates)\<close> replaces the peer membership with the
  candidates if and only if the resulting set differs from the current one, and returns
  whether a change occurred.
\<close>

definition update_peers :: "Net \<Rightarrow> Peer list \<Rightarrow> bool \<times> Net" where
  "update_peers n candidates =
     (if set candidates \<noteq> set (peers n) then (True, n\<lparr>peers := candidates\<rparr>) else (False, n))"

text \<open>
  Modelled from the spec: \<^verbatim>\<open>Blockchain.new_block\<close> is not in the source at hand. The
  specification's \<open>newBlockTemplate(solverAddress)\<close> produces an unmined block (empty
  transaction list, nonce unset) whose previousHash is the current head.
\<close>

definition new_block :: "Blockchain \<Rightarrow> string \<Rightarrow> Block" where
  "new_block c solver_adr =
     \<lparr>prev = chain_hash c, transactions = [], pow = \<lparr>nonce = None, solver = solver_adr\<rparr>\<rparr>"

text \<open>
  Modelled from the spec: \<^verbatim>\<open>Blockchain.add_trans\<close> is not in the source at hand. The
  specification's \<open>addTransaction(block, transaction)\<close> appends to a block template's
  transaction list; no validation is performed.
\<close>

definition add_trans :: "Blockchain \<Rightarrow> Block \<Rightarrow> Transaction \<Rightarrow> Block" where
  "add_trans c b t = b\<lparr>transactions := transactions b @ [t]\<rparr>"

subsection \<open>Node state and effects\<close>

datatype event = Send pyval | ToDisk pyval string

text \<open>The attributes of \<^verbatim>\<open>CLI\<close>, and the log of the effects performed so far.\<close>

record CLI =
  net :: Net
  usr :: User
  chain :: Blockchain
  out :: "event list"

text \<open>\<^verbatim>\<open>class MiningServer(CoreServer)\<close>; \<^verbatim>\<open>CoreServer\<close> adds no attribute to \<^verbatim>\<open>CLI\<close>.\<close>

record MiningServer = CLI +
  block :: "Block option"
  trans_cache :: "Transaction list"

text \<open>\<^verbatim>\<open>await self.net.send(msg)\<close>: the broadcast of \<open>msg\<close> to the peers.\<close>

definition send :: "pyval \<Rightarrow> 'a CLI_scheme \<Rightarrow> 'a CLI_scheme" where
  "send msg s = s\<lparr>out := out s @ [Send msg]\<rparr>"

text \<open>\<^verbatim>\<open>_dict_to_disk(obj, obj_path)\<close>, applied to \<^verbatim>\<open>obj.to_dict()\<close>.\<close>

definition dict_to_disk :: "pyval \<Rightarrow> string \<Rightarrow> 'a CLI_scheme \<Rightarrow> 'a CLI_scheme" where
  "dict_to_disk obj obj_path s = s\<lparr>out := out s @ [ToDisk obj obj_path]\<rparr>"

subsection \<open>\<^verbatim>\<open>class CLI\<close>\<close>

text \<open>
  \<^verbatim>\<open>act_with_passwd(act)\<close> prompts until \<open>act\<close> does not raise. The passwords typed
  are a list; when it is used up the user interrupts and the process exits (\<open>None\<close>).
\<close>

fun act_with_passwd :: "(string \<Rightarrow> 'r option) \<Rightarrow> string list \<Rightarrow> 'r option" where
  "act_with_passwd action [] = None"
| "act_with_passwd action (passwd # rest) =
     (case action passwd of Some r \<Rightarrow> Some r | None \<Rightarrow> act_with_passwd action rest)"

definition passwd :: "core_ops \<Rightarrow> string list \<Rightarrow> 'a CLI_scheme \<Rightarrow> string option" where
  "passwd K typed s = act_with_passwd (check_passwd K (usr s)) typed"

text \<open>
  \<^verbatim>\<open>CLI.make_trans(trans)\<close> with the answer \<open>ans\<close> to the prompt. The transaction is
  signed in place, so the signed transaction is returned with the state.
\<close>

definition CLI_make_trans ::
  "core_ops \<Rightarrow> string \<Rightarrow> string list \<Rightarrow> Transaction \<Rightarrow> 'a CLI_scheme
     \<Rightarrow> (Transaction \<times> 'a CLI_scheme) outcome" where
  "CLI_make_trans K ans typed t s =
     (if ans = ''y'' \<or> ans = ''Y'' then
        (case passwd K typed s of
           None \<Rightarrow> Raised SystemExit (t, s)
         | Some key \<Rightarrow>
             (let t' = sign_trans K t (usr s) key
              in Returned (t', send (PDict [(''trans'', Transaction_to_dict t')]) s)))
      else Returned (t, s))"


subsection \<open>\<^verbatim>\<open>class CoreServer(CLI)\<close>\<close>

text \<open>
  \<^verbatim>\<open>[Peer(peer['ipv6'], peer['port']) for peer in peers_dict]\<close>. Subscripting a
  dictionary without the key raises KeyError; subscripting anything else with a string
  raises TypeError, as does iterating over a number, a boolean or \<^verbatim>\<open>None\<close>. Iterating
  over a dictionary or a string yields strings.
\<close>

fun peer_of :: "pyval \<Rightarrow> error + Peer" where
  "peer_of (PDict kvs) =
     (case map_of kvs ''ipv6'' of
        None \<Rightarrow> Inl KeyError
      | Some a \<Rightarrow> (case map_of kvs ''port'' of
                    None \<Rightarrow> Inl KeyError
                  | Some p \<Rightarrow> Inr \<lparr>ipv6 = a, port = p\<rparr>))"
| "peer_of _ = Inl TypeError"

fun peers_of_list :: "pyval list \<Rightarrow> error + Peer list" where
  "peers_of_list [] = Inr []"
| "peers_of_list (x # xs) =
     (case peer_of x of
        Inl e \<Rightarrow> Inl e
      | Inr p \<Rightarrow> (case peers_of_list xs of Inl e \<Rightarrow> Inl e | Inr ps \<Rightarrow> Inr (p # ps)))"

fun peers_of :: "pyval \<Rightarrow> error + Peer list" where
  "peers_of (PList xs) = peers_of_list xs"
| "peers_of (PDict kvs) = (if kvs = [] then Inr [] else Inl TypeError)"
| "peers_of (PStr str) = (if str = [] then Inr [] else Inl TypeError)"
| "peers_of _ = Inl TypeError"

definition update_peers_hlr :: "core_ops \<Rightarrow> pyval \<Rightarrow> 'a CLI_scheme \<Rightarrow> 'a CLI_scheme outcome" where
  "update_peers_hlr K peers_dict s =
     (case peers_of peers_dict of
        Inl e \<Rightarrow> Raised e s
      | Inr ps \<Rightarrow>
          (let (changed, n) = update_peers (net s) ps;
               s1 = s\<lparr>net := n\<rparr>
           in if changed then
                (let s2 = send (PDict [(''peers'', peers_dict)]) s1
                 in Returned (dict_to_disk (Net_to_dict (net s2)) ''peers.json'' s2))
              else Returned s1))"

definition add_block_hlr :: "core_ops \<Rightarrow> pyval \<Rightarrow> 'a CLI_scheme \<Rightarrow> 'a CLI_scheme outcome" where
  "add_block_hlr K block_dict s =
     (case Block_from_dict K block_dict of
        None \<Rightarrow> Raised DaciteError s
      | Some b \<Rightarrow>
          (let s1 = (if check_block K (chain s) b = OK
                     then send (PDict [(''block'', Block_to_dict b)]) s else s);
               (changed, c) = add_block K (chain s1) b;
               s2 = s1\<lparr>chain := c\<rparr>
           in if changed
              then Returned (dict_to_disk (Blockchain_to_dict (chain s2)) ''blockchain.json'' s2)
              else Returned s2))"

text \<open>
  \<^verbatim>\<open>for key, hlr in hlr_map.items(): if data.get(key): await hlr(data[key])\<close>, over the
  items of the handler map in their order.
\<close>

fun run_hlrs ::
  "(string \<times> (pyval \<Rightarrow> 's \<Rightarrow> 's outcome)) list \<Rightarrow> (string \<times> pyval) list \<Rightarrow> 's \<Rightarrow> 's outcome" where
  "run_hlrs [] data s = Returned s"
| "run_hlrs ((key, hlr) # rest) data s =
     (if truthy (dict_get data key) then
        (case hlr (dict_get data key) s of
           Raised e s' \<Rightarrow> Raised e s'
         | Returned s' \<Rightarrow> run_hlrs rest data s')
      else run_hlrs rest data s)"

definition hlr_map :: "core_ops \<Rightarrow> (string \<times> (pyval \<Rightarrow> 'a CLI_scheme \<Rightarrow> 'a CLI_scheme outcome)) list" where
  "hlr_map K = [(''peers'', update_peers_hlr K), (''block'', add_block_hlr K)]"

definition CoreServer_serve_dispatch ::
  "core_ops \<Rightarrow> (string \<times> pyval) list \<Rightarrow> 'a CLI_scheme \<Rightarrow> 'a CLI_scheme outcome" where
  "CoreServer_serve_dispatch K data s = run_hlrs (hlr_map K) data s"

subsection \<open>\<^verbatim>\<open>class MiningServer(CoreServer)\<close>\<close>

definition cache_trans :: "Transaction \<Rightarrow> 'a MiningServer_scheme \<Rightarrow> 'a MiningServer_scheme" where
  "cache_trans t s = s\<lparr>trans_cache := trans_cache s @ [t]\<rparr>"

text \<open>\<^verbatim>\<open>MiningServer.make_trans\<close>: \<^verbatim>\<open>super().make_trans(trans)\<close>, then the cache.\<close>

definition MiningServer_make_trans ::
  "core_ops \<Rightarrow> string \<Rightarrow> string list \<Rightarrow> Transaction \<Rightarrow> 'a MiningServer_scheme
     \<Rightarrow> (Transaction \<times> 'a MiningServer_scheme) outcome" where
  "MiningServer_make_trans K ans typed t s =
     (case CLI_make_trans K ans typed t s of
        Raised e r \<Rightarrow> Raised e r
      | Returned (t', s') \<Rightarrow> Returned (t', cache_trans t' s'))"

text \<open>
  The statements of \<^verbatim>\<open>update_block\<close> after its loop: the new block, the transactions
  of the cache added to it one by one, the cache cleared.
\<close>

definition generate_block :: "'a MiningServer_scheme \<Rightarrow> 'a MiningServer_scheme" where
  "generate_block s =
     (let b = new_block (chain s) (pub (usr s));
          b' = foldl (add_trans (chain s)) b (trans_cache s)
      in s\<lparr>block := Some b', trans_cache := []\<rparr>)"

text \<open>
  \<^verbatim>\<open>while self.chain.get_block_confirms(self.block): await asyncio.sleep(0)\<close>: the
  condition of the loop, and \<^verbatim>\<open>update_block\<close> itself. Each element of the schedule is
  what the other tasks do to the node during one \<^verbatim>\<open>await asyncio.sleep(0)\<close>. The result
  is \<open>None\<close> when the loop is still waiting at the end of the schedule.
\<close>

definition waiting :: "core_ops \<Rightarrow> 'a MiningServer_scheme \<Rightarrow> bool" where
  "waiting K s = truthy (get_block_confirms K (chain s) (block s))"

fun update_block ::
  "core_ops \<Rightarrow> ('a MiningServer_scheme \<Rightarrow> 'a MiningServer_scheme) list
     \<Rightarrow> 'a MiningServer_scheme \<Rightarrow> 'a MiningServer_scheme option" where
  "update_block K [] s = (if waiting K s then None else Some (generate_block s))"
| "update_block K (others # sched) s =
     (if waiting K s then update_block K sched (others s) else Some (generate_block s))"

definition add_trans_hlr ::
  "core_ops \<Rightarrow> pyval \<Rightarrow> 'a MiningServer_scheme \<Rightarrow> 'a MiningServer_scheme outcome" where
  "add_trans_hlr K trans_dict s =
     (case Transaction_from_dict K trans_dict of
        None \<Rightarrow> Raised DaciteError s
      | Some t \<Rightarrow> Returned (cache_trans t s))"

definition MiningServer_serve_dispatch ::
  "core_ops \<Rightarrow> (string \<times> pyval) list \<Rightarrow> 'a MiningServer_scheme \<Rightarrow> 'a MiningServer_scheme outcome" where
  "MiningServer_serve_dispatch K data s =
     (case CoreServer_serve_dispatch K data s of
        Raised e s' \<Rightarrow> Raised e s'
      | Returned s' \<Rightarrow>
          (if truthy (dict_get data ''trans'')
           then add_trans_hlr K (dict_get data ''trans'') s'
           else Returned s'))"

text \<open>
  The reward transaction of \<^verbatim>\<open>serve_mining\<close>:
  \<^verbatim>\<open>Transaction(from_adr=None, to_adr=self.block.pow.solver, act=reward_act, hash=None, sign=None)\<close>
  with \<^verbatim>\<open>reward_act = Reward(self.chain.reward(), self.block.dict_hash())\<close>.
\<close>

definition reward_trans :: "core_ops \<Rightarrow> Blockchain \<Rightarrow> Block \<Rightarrow> Transaction" where
  "reward_trans K c b =
     \<lparr>from_adr = None, to_adr = solver (pow b), act = Reward (reward K c) (dict_hash K b),
      hash = None, sign = None\<rparr>"

text \<open>
  The part of the body of \<^verbatim>\<open>serve_mining\<close> after \<^verbatim>\<open>await self.miner.work()\<close> (``check
  and send''), for the solved block \<open>b\<close> that \<^verbatim>\<open>self.block\<close> then is.
\<close>

definition check_and_send :: "core_ops \<Rightarrow> Block \<Rightarrow> 'a MiningServer_scheme \<Rightarrow> 'a MiningServer_scheme" where
  "check_and_send K b s =
     (let s1 = (if check_block K (chain s) b = OK then
                  (let t = reward_trans K (chain s) b;
                       s' = cache_trans t s;
                       s'' = send (PDict [(''trans'', Transaction_to_dict t)]) s'
                   in send (PDict [(''block'', Block_to_dict b)]) s'')
                else s);
          (changed, c) = add_block K (chain s1) b;
          s2 = s1\<lparr>chain := c\<rparr>
      in if changed
         then dict_to_disk (Blockchain_to_dict (chain s2)) ''blockchain.json'' s2
         else s2)"

text \<open>
  One round of the \<^verbatim>\<open>while True\<close> of \<^verbatim>\<open>serve_mining\<close>: \<^verbatim>\<open>update_block\<close>, the miner at
  work on \<^verbatim>\<open>self.block\<close> (which it solves in place), check and send. The result is
  \<open>None\<close> when \<^verbatim>\<open>update_block\<close> is still waiting or the search does not end.
\<close>

definition serve_mining_round ::
  "core_ops \<Rightarrow> ('a MiningServer_scheme \<Rightarrow> 'a MiningServer_scheme) list
     \<Rightarrow> 'a MiningServer_scheme \<Rightarrow> 'a MiningServer_scheme option" where
  "serve_mining_round K sched s =
     (case update_block K sched s of
        None \<Rightarrow> None
      | Some s1 \<Rightarrow>
          (case block s1 of
             None \<Rightarrow> None
           | Some b \<Rightarrow>
               (case work K b of
                  None \<Rightarrow> None
                | Some solved \<Rightarrow> Some (check_and_send K solved (s1\<lparr>block := Some solved\<rparr>)))))"

subsection \<open>The transaction of the command line\<close>

text \<open>
  The main block: \<^verbatim>\<open>--trans to act args\<close>. The action is looked up by its kind in a
  dictionary (KeyError for any other kind); \<open>py_int\<close> is Python's \<^verbatim>\<open>int\<close> on a string,
  \<open>None\<close> where it raises ValueError. The constructor call names no \<^verbatim>\<open>sign\<close>.
\<close>

definition main_act :: "(string \<Rightarrow> int option) \<Rightarrow> string \<Rightarrow> string \<Rightarrow> error + Action" where
  "main_act py_int kind act_args =
     (if kind = ''ivc'' then
        (case py_int act_args of None \<Rightarrow> Inl ValueError | Some n \<Rightarrow> Inr (Invoice n))
      else if kind = ''pay'' then
        (case py_int act_args of None \<Rightarrow> Inl ValueError | Some n \<Rightarrow> Inr (Payment n))
      else if kind = ''msg'' then Inr (Message act_args)
      else Inl KeyError)"

definition main_trans ::
  "(string \<Rightarrow> int option) \<Rightarrow> User \<Rightarrow> string \<Rightarrow> string \<Rightarrow> string \<Rightarrow> error + Transaction" where
  "main_trans py_int u to kind act_args =
     (case main_act py_int kind act_args of
        Inl e \<Rightarrow> Inl e
      | Inr a \<Rightarrow> Inr \<lparr>from_adr = Some (pub u), to_adr = to, act = a, hash = None, sign = None\<rparr>)"

subsection \<open>Observing a run\<close>

text \<open>The events a step from \<open>s\<close> to \<open>s'\<close> has added to the log, and the messages among them.\<close>

definition emitted :: "'a CLI_scheme \<Rightarrow> 'b CLI_scheme \<Rightarrow> event list" where
  "emitted s s' = drop (length (out s)) (out s')"

fun sent :: "event list \<Rightarrow> pyval list" where
  "sent [] = []"
| "sent (Send msg # evs) = msg # sent evs"
| "sent (ToDisk obj obj_path # evs) = sent evs"

fun persisted :: "event list \<Rightarrow> (pyval \<times> string) list" where
  "persisted [] = []"
| "persisted (Send msg # evs) = persisted evs"
| "persisted (ToDisk obj obj_path # evs) = (obj, obj_path) # persisted evs"

text \<open>The state a call ends in, whether it returned or raised.\<close>

fun state_of :: "'a outcome \<Rightarrow> 'a" where
  "state_of (Returned s) = s"
| "state_of (Raised e s) = s"

text \<open>
  The state of the node at the \<open>i\<close>-th evaluation of the loop condition of
  \<^verbatim>\<open>update_block\<close> (counted from 0), after the other tasks have run \<open>i\<close> times.
\<close>

definition poll :: "('s \<Rightarrow> 's) list \<Rightarrow> nat \<Rightarrow> 's \<Rightarrow> 's" where
  "poll sched i s = fold (\<lambda>others. others) (take i sched) s"

text \<open>
  The message format of the specification's \<open>broadcast(message)\<close>: a mapping with
  exactly one populated key among \<open>peers\<close>, \<open>block\<close> and \<open>trans\<close>. A key is populated
  when the receiver's test \<^verbatim>\<open>data.get(key)\<close> succeeds.
\<close>

definition populated_keys :: "pyval \<Rightarrow> string list" where
  "populated_keys msg =
     (case msg of
        PDict kvs \<Rightarrow> filter (\<lambda>key. truthy (dict_get kvs key)) [''peers'', ''block'', ''trans'']
      | _ \<Rightarrow> [])"


text \<open>Inbound messages handled one after the other by a mining node.\<close>

fun deliver ::
  "core_ops \<Rightarrow> (string \<times> pyval) list list \<Rightarrow> 'a MiningServer_scheme \<Rightarrow> 'a MiningServer_scheme outcome" where
  "deliver K [] s = Returned s"
| "deliver K (data # rest) s =
     (case MiningServer_serve_dispatch K data s of
        Raised e s' \<Rightarrow> Raised e s'
      | Returned s' \<Rightarrow> deliver K rest s')"

subsection \<open>A sample node\<close>

text \<open>
  A concrete instance of the collaborators and of the node state, on which the
  theorems below are evaluated. The instance is indexed by the value
  \<^verbatim>\<open>get_block_confirms\<close> returns and by the verdict of \<^verbatim>\<open>check_block\<close>; its
  \<^verbatim>\<open>add_block\<close> appends a block that extends the head.
\<close>

definition sample_block :: Block where
  "sample_block = \<lparr>prev = None, transactions = [], pow = \<lparr>nonce = Some 42, solver = ''miner-pub''\<rparr>\<rparr>"

definition sample_trans :: Transaction where
  "sample_trans =
     \<lparr>from_adr = Some ''alice'', to_adr = ''bob'', act = Payment 5, hash = Some ''h1'',
      sign = Some ''sig''\<rparr>"

definition sample_ops :: "pyval \<Rightarrow> BlockCheck \<Rightarrow> core_ops" where
  "sample_ops confirms verdict =
     \<lparr>check_block = (\<lambda>c b. verdict),
      add_block = (\<lambda>c b. if prev b = chain_hash c
                     then (True, c\<lparr>blocks := blocks c @ [(''b1'', b)], chain_hash := Some ''b1''\<rparr>)
                     else (False, c)),
      get_block_confirms = (\<lambda>c b. confirms),
      reward = (\<lambda>c. 50),
      dict_hash = (\<lambda>b. ''b1''),
      Block_from_dict = (\<lambda>d. if d = Block_to_dict sample_block then Some sample_block else None),
      Transaction_from_dict =
        (\<lambda>d. if d = Transaction_to_dict sample_trans then Some sample_trans else None),
      check_passwd = (\<lambda>u typed. if typed = ''secret'' then Some typed else None),
      sign_trans = (\<lambda>t u key. t\<lparr>hash := Some ''h1'', sign := Some ''sig''\<rparr>),
      work = (\<lambda>b. Some (b\<lparr>pow := (pow b)\<lparr>nonce := Some 42\<rparr>\<rparr>))\<rparr>"

definition sample_peer :: Peer where
  "sample_peer = \<lparr>ipv6 = PStr ''2002:c257:6f39::1'', port = PInt 10000\<rparr>"

definition sample_net :: Net where
  "sample_net = \<lparr>net_hash = None, peers = [sample_peer], net_ipv6 = ''2002:c257:65d4::1''\<rparr>"

definition sample_chain :: Blockchain where
  "sample_chain = \<lparr>ver = ''0.1'', blocks = [], chain_hash = None\<rparr>"

definition sample_node :: CLI where
  "sample_node = \<lparr>net = sample_net, usr = \<lparr>pub = ''miner-pub''\<rparr>, chain = sample_chain, out = []\<rparr>"

definition sample_miner :: "Block option \<Rightarrow> Transaction list \<Rightarrow> MiningServer" where
  "sample_miner b cache =
     \<lparr>net = sample_net, usr = \<lparr>pub = ''miner-pub''\<rparr>, chain = sample_chain, out = [],
      block = b, trans_cache = cache\<rparr>"

section \<open>Properties\<close>

lemma send_simps:
  "out (send msg s) = out s @ [Send msg]"
  "net (send msg s) = net s" "chain (send msg s) = chain s" "usr (send msg s) = usr s"
  by (simp_all add: send_def)

lemma send_mining_simps:
  "trans_cache (send msg s) = trans_cache s" "block (send msg s) = block s"
  by (simp_all add: send_def)

lemma dict_to_disk_simps:
  "out (dict_to_disk obj p s) = out s @ [ToDisk obj p]"
  "net (dict_to_disk obj p s) = net s" "chain (dict_to_disk obj p s) = chain s"
  "usr (dict_to_disk obj p s) = usr s"
  by (simp_all add: dict_to_disk_def)

lemma dict_to_disk_mining_simps:
  "trans_cache (dict_to_disk obj p s) = trans_cache s" "block (dict_to_disk obj p s) = block s"
  by (simp_all add: dict_to_disk_def)

lemma cache_trans_simps:
  "trans_cache (cache_trans t s) = trans_cache s @ [t]"
  "out (cache_trans t s) = out s" "net (cache_trans t s) = net s"
  "chain (cache_trans t s) = chain s" "usr (cache_trans t s) = usr s"
  "block (cache_trans t s) = block s"
  by (simp_all add: cache_trans_def)

lemmas effect_simps = send_simps send_mining_simps dict_to_disk_simps dict_to_disk_mining_simps
  cache_trans_simps

lemma check_and_send_out:
  "out (check_and_send K b s) = out s @
     (if check_block K (chain s) b = OK
      then [Send (PDict [(''trans'', Transaction_to_dict (reward_trans K (chain s) b))]),
            Send (PDict [(''block'', Block_to_dict b)])]
      else []) @
     (if fst (add_block K (chain s) b)
      then [ToDisk (Blockchain_to_dict (snd (add_block K (chain s) b))) ''blockchain.json'']
      else [])"
  by (simp add: check_and_send_def Let_def effect_simps split: prod.splits)

lemma check_and_send_chain:
  "chain (check_and_send K b s) = snd (add_block K (chain s) b)"
  by (simp add: check_and_send_def Let_def effect_simps split: prod.splits)

lemma check_and_send_cache:
  "trans_cache (check_and_send K b s) =
     (if check_block K (chain s) b = OK then trans_cache s @ [reward_trans K (chain s) b]
      else trans_cache s)"
  by (simp add: check_and_send_def Let_def effect_simps split: prod.splits)

subsection \<open>The solved block in the mining loop\<close>

text \<open>
  Claim C1. In the mining loop, for the block \<open>b\<close> that \<^verbatim>\<open>Miner.work()\<close> has solved: if
  \<^verbatim>\<open>check_block\<close> returns \<open>OK\<close>, the reward transaction is appended to the cache of
  pending transactions and the messages broadcast are the reward transaction and then
  the solved block; in every case the chain becomes the one \<^verbatim>\<open>add_block\<close> returns, and
  the chain is written to \<^verbatim>\<open>blockchain.json\<close> exactly when \<^verbatim>\<open>add_block\<close> reports a
  change.
\<close>

theorem mining_solved_block_handling:
  "(check_block K (chain s) b = OK \<longrightarrow>
      trans_cache (check_and_send K b s) = trans_cache s @ [reward_trans K (chain s) b] \<and>
      sent (emitted s (check_and_send K b s)) =
        [PDict [(''trans'', Transaction_to_dict (reward_trans K (chain s) b))],
         PDict [(''block'', Block_to_dict b)]]) \<and>
   chain (check_and_send K b s) = snd (add_block K (chain s) b) \<and>
   persisted (emitted s (check_and_send K b s)) =
     (if fst (add_block K (chain s) b)
      then [(Blockchain_to_dict (snd (add_block K (chain s) b)), ''blockchain.json'')]
      else []) \<and>
   (serve_mining_round K sched start = Some s' \<longrightarrow>
      (\<exists>s1 b0 solved. update_block K sched start = Some s1 \<and> block s1 = Some b0 \<and>
         work K b0 = Some solved \<and> s' = check_and_send K solved (s1\<lparr>block := Some solved\<rparr>)))"
proof -
  have cached: "trans_cache (check_and_send K b s) = trans_cache s @ [reward_trans K (chain s) b]"
    if "check_block K (chain s) b = OK"
    using that by (simp add: check_and_send_cache)
  have broadcast: "sent (emitted s (check_and_send K b s)) =
      [PDict [(''trans'', Transaction_to_dict (reward_trans K (chain s) b))],
       PDict [(''block'', Block_to_dict b)]]"
    if "check_block K (chain s) b = OK"
    using that by (simp add: emitted_def check_and_send_out)
  have appended: "chain (check_and_send K b s) = snd (add_block K (chain s) b)"
    by (rule check_and_send_chain)
  have written: "persisted (emitted s (check_and_send K b s)) =
     (if fst (add_block K (chain s) b)
      then [(Blockchain_to_dict (snd (add_block K (chain s) b)), ''blockchain.json'')]
      else [])"
    by (simp add: emitted_def check_and_send_out)
  have round: "\<exists>s1 b0 solved. update_block K sched start = Some s1 \<and> block s1 = Some b0 \<and>
         work K b0 = Some solved \<and> s' = check_and_send K solved (s1\<lparr>block := Some solved\<rparr>)"
    if "serve_mining_round K sched start = Some s'"
    using that by (auto simp: serve_mining_round_def split: option.splits)
  from cached broadcast appended written round show ?thesis by blast
qed

theorem mining_solved_block_handling_witness:
  "check_block (sample_ops PNone OK) (chain (sample_miner (Some sample_block) [])) sample_block = OK \<and>
   trans_cache (check_and_send (sample_ops PNone OK) sample_block (sample_miner (Some sample_block) [])) =
     [\<lparr>from_adr = None, to_adr = ''miner-pub'', act = Reward 50 ''b1'', hash = None, sign = None\<rparr>] \<and>
   length (sent (emitted (sample_miner (Some sample_block) [])
     (check_and_send (sample_ops PNone OK) sample_block (sample_miner (Some sample_block) [])))) = 2 \<and>
   length (persisted (emitted (sample_miner (Some sample_block) [])
     (check_and_send (sample_ops PNone OK) sample_block (sample_miner (Some sample_block) [])))) = 1"
proof -
  let ?K = "sample_ops PNone OK" and ?s = "sample_miner (Some sample_block) []"
  have ok: "check_block ?K (chain ?s) sample_block = OK"
    by (simp add: sample_ops_def)
  have ch: "fst (add_block ?K (chain ?s) sample_block)"
    by (simp add: sample_ops_def sample_miner_def sample_chain_def sample_block_def)
  have rt: "reward_trans ?K (chain ?s) sample_block =
      \<lparr>from_adr = None, to_adr = ''miner-pub'', act = Reward 50 ''b1'', hash = None, sign = None\<rparr>"
    by (simp add: reward_trans_def sample_ops_def sample_block_def)
  have c: "trans_cache ?s = []"
    by (simp add: sample_miner_def)
  from mining_solved_block_handling [where K = ?K and s = ?s and b = sample_block
      and sched = "[]" and start = ?s and s' = ?s] ok ch rt c
  show ?thesis by simp
qed

lemma update_peers_hlr_eq:
  "update_peers_hlr K pd s =
     (case peers_of pd of
        Inl e \<Rightarrow> Raised e s
      | Inr ps \<Rightarrow>
          Returned (if set ps \<noteq> set (peers (net s))
                    then s\<lparr>net := (net s)\<lparr>peers := ps\<rparr>,
                           out := out s @ [Send (PDict [(''peers'', pd)]),
                                           ToDisk (Net_to_dict ((net s)\<lparr>peers := ps\<rparr>)) ''peers.json'']\<rparr>
                    else s))"
  by (simp add: update_peers_hlr_def update_peers_def Let_def send_def dict_to_disk_def
           split: sum.splits)

lemma add_block_hlr_eq:
  "add_block_hlr K bd s =
     (case Block_from_dict K bd of
        None \<Rightarrow> Raised DaciteError s
      | Some b \<Rightarrow>
          Returned (s\<lparr>chain := snd (add_block K (chain s) b),
                      out := out s @
                        (if check_block K (chain s) b = OK
                         then [Send (PDict [(''block'', Block_to_dict b)])] else []) @
                        (if fst (add_block K (chain s) b)
                         then [ToDisk (Blockchain_to_dict (snd (add_block K (chain s) b)))
                                 ''blockchain.json'']
                         else [])\<rparr>))"
  by (simp add: add_block_hlr_def Let_def send_def dict_to_disk_def
           split: option.splits prod.splits)

lemma CoreServer_serve_dispatch_unfold:
  "CoreServer_serve_dispatch K data s =
     (case (if truthy (dict_get data ''peers'')
            then update_peers_hlr K (dict_get data ''peers'') s else Returned s) of
        Raised e s' \<Rightarrow> Raised e s'
      | Returned s1 \<Rightarrow>
          (if truthy (dict_get data ''block'')
           then add_block_hlr K (dict_get data ''block'') s1 else Returned s1))"
  by (simp add: CoreServer_serve_dispatch_def hlr_map_def split: outcome.splits)

lemma emitted_append: "out s' = out s @ evs \<Longrightarrow> emitted s s' = evs"
  by (simp add: emitted_def)

lemma sent_append: "sent (xs @ ys) = sent xs @ sent ys"
  by (induction xs rule: sent.induct) simp_all

lemma persisted_append: "persisted (xs @ ys) = persisted xs @ persisted ys"
  by (induction xs rule: persisted.induct) simp_all

text \<open>What the \<open>peers\<close> stage of the dispatch leaves behind when it returns.\<close>

lemma peers_stage_returned:
  assumes "(if truthy pd then update_peers_hlr K pd s else Returned s) = Returned s1"
  shows "chain s1 = chain s \<and> usr s1 = usr s \<and>
         (\<exists>evs. out s1 = out s @ evs \<and>
                (evs = [] \<or> (\<exists>obj. evs = [Send (PDict [(''peers'', pd)]), ToDisk obj ''peers.json''])))"
proof (cases "truthy pd")
  case False
  with assms show ?thesis by simp
next
  case True
  with assms have r: "update_peers_hlr K pd s = Returned s1" by simp
  then obtain ps where ps: "peers_of pd = Inr ps"
    by (cases "peers_of pd") (simp_all add: update_peers_hlr_eq)
  show ?thesis
  proof (cases "set ps \<noteq> set (peers (net s))")
    case True
    with r ps have "s1 = s\<lparr>net := (net s)\<lparr>peers := ps\<rparr>,
        out := out s @ [Send (PDict [(''peers'', pd)]),
                        ToDisk (Net_to_dict ((net s)\<lparr>peers := ps\<rparr>)) ''peers.json'']\<rparr>"
      by (simp add: update_peers_hlr_eq)
    then show ?thesis by simp
  next
    case False
    with r ps have "s1 = s" by (simp add: update_peers_hlr_eq)
    then show ?thesis by simp
  qed
qed

lemma core_dispatch_block:
  assumes tr: "truthy (dict_get data ''block'')"
    and dec: "Block_from_dict K (dict_get data ''block'') = Some b"
    and ret: "CoreServer_serve_dispatch K data s = Returned s'"
  shows "chain s' = snd (add_block K (chain s) b) \<and>
         (\<exists>pre. (pre = [] \<or> (\<exists>obj. pre = [Send (PDict [(''peers'', dict_get data ''peers'')]),
                                              ToDisk obj ''peers.json''])) \<and>
            emitted s s' = pre @
              (if check_block K (chain s) b = OK then [Send (PDict [(''block'', Block_to_dict b)])]
               else []) @
              (if fst (add_block K (chain s) b)
               then [ToDisk (Blockchain_to_dict (snd (add_block K (chain s) b))) ''blockchain.json'']
               else []))"
proof -
  let ?pd = "dict_get data ''peers''"
  let ?stage = "if truthy ?pd then update_peers_hlr K ?pd s else Returned s"
  from ret obtain s1 where s1: "?stage = Returned s1"
    by (cases ?stage) (simp_all add: CoreServer_serve_dispatch_unfold)
  with ret tr have blk: "add_block_hlr K (dict_get data ''block'') s1 = Returned s'"
    by (simp add: CoreServer_serve_dispatch_unfold)
  from peers_stage_returned [OF s1] obtain pre where
    c1: "chain s1 = chain s" and o1: "out s1 = out s @ pre" and
    pre: "pre = [] \<or> (\<exists>obj. pre = [Send (PDict [(''peers'', ?pd)]), ToDisk obj ''peers.json''])"
    by blast
  from blk dec have s': "s' = s1\<lparr>chain := snd (add_block K (chain s1) b),
      out := out s1 @
        (if check_block K (chain s1) b = OK then [Send (PDict [(''block'', Block_to_dict b)])]
         else []) @
        (if fst (add_block K (chain s1) b)
         then [ToDisk (Blockchain_to_dict (snd (add_block K (chain s1) b))) ''blockchain.json'']
         else [])\<rparr>"
    by (simp add: add_block_hlr_eq)
  have "chain s' = snd (add_block K (chain s) b)"
    by (simp add: s' c1)
  moreover have "emitted s s' = pre @
      (if check_block K (chain s) b = OK then [Send (PDict [(''block'', Block_to_dict b)])]
       else []) @
      (if fst (add_block K (chain s) b)
       then [ToDisk (Blockchain_to_dict (snd (add_block K (chain s) b))) ''blockchain.json'']
       else [])"
    by (rule emitted_append) (simp add: s' c1 o1)
  ultimately show ?thesis using pre by blast
qed

lemma mining_dispatch_core:
  assumes "MiningServer_serve_dispatch K data s = Returned s'"
  shows "\<exists>s1. CoreServer_serve_dispatch K data s = Returned s1 \<and> out s' = out s1 \<and>
              chain s' = chain s1 \<and> net s' = net s1 \<and>
              trans_cache s' =
                (if truthy (dict_get data ''trans'')
                 then trans_cache s1 @ [the (Transaction_from_dict K (dict_get data ''trans''))]
                 else trans_cache s1)"
proof -
  from assms obtain s1 where s1: "CoreServer_serve_dispatch K data s = Returned s1"
    by (cases "CoreServer_serve_dispatch K data s") (simp_all add: MiningServer_serve_dispatch_def)
  show ?thesis
  proof (cases "truthy (dict_get data ''trans'')")
    case False
    with assms s1 have "s' = s1" by (simp add: MiningServer_serve_dispatch_def)
    with s1 False show ?thesis by simp
  next
    case True
    with assms s1 have a: "add_trans_hlr K (dict_get data ''trans'') s1 = Returned s'"
      by (simp add: MiningServer_serve_dispatch_def)
    then obtain t where t: "Transaction_from_dict K (dict_get data ''trans'') = Some t"
      by (cases "Transaction_from_dict K (dict_get data ''trans'')") (simp_all add: add_trans_hlr_def)
    with a have "s' = cache_trans t s1" by (simp add: add_trans_hlr_def)
    with s1 True t show ?thesis by (simp add: cache_trans_simps)
  qed
qed



text \<open>The \<open>block\<close> stage of the dispatch, from any state and with any outcome.\<close>

lemma block_stage:
  "net (state_of (if truthy bd then add_block_hlr K bd s1 else Returned s1)) = net s1 \<and>
   (\<exists>post. out (state_of (if truthy bd then add_block_hlr K bd s1 else Returned s1)) = out s1 @ post \<and>
      (\<forall>m \<in> set (sent post). \<exists>b. m = PDict [(''block'', Block_to_dict b)]) \<and>
      (\<forall>op \<in> set (persisted post). snd op = ''blockchain.json''))"
proof (cases "truthy bd")
  case False
  then show ?thesis by simp
next
  case True
  show ?thesis
  proof (cases "Block_from_dict K bd")
    case None
    with True show ?thesis by (simp add: add_block_hlr_eq)
  next
    case (Some b)
    let ?post = "(if check_block K (chain s1) b = OK
                  then [Send (PDict [(''block'', Block_to_dict b)])] else []) @
                 (if fst (add_block K (chain s1) b)
                  then [ToDisk (Blockchain_to_dict (snd (add_block K (chain s1) b)))
                          ''blockchain.json'']
                  else [])"
    from True Some have
      "out (state_of (if truthy bd then add_block_hlr K bd s1 else Returned s1)) = out s1 @ ?post"
      "net (state_of (if truthy bd then add_block_hlr K bd s1 else Returned s1)) = net s1"
      by (simp_all add: add_block_hlr_eq)
    moreover have "\<forall>m \<in> set (sent ?post). \<exists>b. m = PDict [(''block'', Block_to_dict b)]"
      by (auto simp: sent_append)
    moreover have "\<forall>op \<in> set (persisted ?post). snd op = ''blockchain.json''"
      by (simp add: persisted_append)
    ultimately show ?thesis by blast
  qed
qed

lemma core_dispatch_state:
  "state_of (CoreServer_serve_dispatch K data s) =
     (case (if truthy (dict_get data ''peers'')
            then update_peers_hlr K (dict_get data ''peers'') s else Returned s) of
        Raised e s' \<Rightarrow> s'
      | Returned s1 \<Rightarrow>
          state_of (if truthy (dict_get data ''block'')
                    then add_block_hlr K (dict_get data ''block'') s1 else Returned s1))"
  by (simp add: CoreServer_serve_dispatch_unfold split: outcome.splits)

lemma core_dispatch_peers:
  assumes tr: "truthy (dict_get data ''peers'')"
    and dec: "peers_of (dict_get data ''peers'') = Inr cands"
  shows "net (state_of (CoreServer_serve_dispatch K data s)) =
           (if set cands \<noteq> set (peers (net s)) then (net s)\<lparr>peers := cands\<rparr> else net s) \<and>
         (\<exists>post. emitted s (state_of (CoreServer_serve_dispatch K data s)) =
            (if set cands \<noteq> set (peers (net s))
             then [Send (PDict [(''peers'', dict_get data ''peers'')]),
                   ToDisk (Net_to_dict ((net s)\<lparr>peers := cands\<rparr>)) ''peers.json'']
             else []) @ post \<and>
            (\<forall>m \<in> set (sent post). \<exists>b. m = PDict [(''block'', Block_to_dict b)]) \<and>
            (\<forall>op \<in> set (persisted post). snd op = ''blockchain.json''))"
proof -
  let ?pd = "dict_get data ''peers''" and ?bd = "dict_get data ''block''"
  let ?pre = "if set cands \<noteq> set (peers (net s))
              then [Send (PDict [(''peers'', ?pd)]),
                    ToDisk (Net_to_dict ((net s)\<lparr>peers := cands\<rparr>)) ''peers.json'']
              else []"
  define s1 where "s1 = (if set cands \<noteq> set (peers (net s))
      then s\<lparr>net := (net s)\<lparr>peers := cands\<rparr>, out := out s @ ?pre\<rparr> else s)"
  have hlr: "update_peers_hlr K ?pd s = Returned s1"
    by (simp add: update_peers_hlr_eq dec s1_def)
  have n1: "net s1 = (if set cands \<noteq> set (peers (net s)) then (net s)\<lparr>peers := cands\<rparr> else net s)"
    and o1: "out s1 = out s @ ?pre"
    by (simp_all add: s1_def)
  let ?r = "if truthy ?bd then add_block_hlr K ?bd s1 else Returned s1"
  have st: "state_of (CoreServer_serve_dispatch K data s) = state_of ?r"
    by (simp add: core_dispatch_state tr hlr)
  from block_stage [of bd K s1 for bd] obtain post where
    "net (state_of ?r) = net s1" and op: "out (state_of ?r) = out s1 @ post" and
    shape: "\<forall>m \<in> set (sent post). \<exists>b. m = PDict [(''block'', Block_to_dict b)]"
           "\<forall>op \<in> set (persisted post). snd op = ''blockchain.json''"
    by blast
  then have "net (state_of (CoreServer_serve_dispatch K data s)) =
      (if set cands \<noteq> set (peers (net s)) then (net s)\<lparr>peers := cands\<rparr> else net s)"
    by (simp add: st n1)
  moreover have "emitted s (state_of (CoreServer_serve_dispatch K data s)) = ?pre @ post"
    by (rule emitted_append) (simp add: st op o1)
  ultimately show ?thesis using shape by blast
qed

lemma block_effects_observed:
  assumes pre: "pre = [] \<or> (\<exists>obj. pre = [Send (PDict [(''peers'', pd)]), ToDisk obj ''peers.json''])"
    and em: "evs = pre @ (if ok then [Send (PDict [(''block'', bd)])] else []) @
                (if changed then [ToDisk cd ''blockchain.json''] else [])"
  shows "(PDict [(''block'', bd)] \<in> set (sent evs) \<longleftrightarrow> ok) \<and>
         ((\<exists>obj. (obj, ''blockchain.json'') \<in> set (persisted evs)) \<longleftrightarrow> changed)"
  using pre
proof
  assume "pre = []"
  with em show ?thesis by (simp add: sent_append persisted_append)
next
  assume "\<exists>obj. pre = [Send (PDict [(''peers'', pd)]), ToDisk obj ''peers.json'']"
  then obtain obj where "pre = [Send (PDict [(''peers'', pd)]), ToDisk obj ''peers.json'']" ..
  with em show ?thesis by (simp add: sent_append persisted_append)
qed

subsection \<open>Inbound blocks\<close>

text \<open>
  Claim C3. For an inbound message whose \<open>block\<close> key is populated and decodes to the
  block \<open>b\<close>, whenever the dispatch of a node (mining or not) returns: the block is
  relayed to the peers if and only if \<^verbatim>\<open>check_block\<close> returns \<open>OK\<close>, and the chain is
  written to \<^verbatim>\<open>blockchain.json\<close> if and only if \<^verbatim>\<open>add_block\<close> reports that the
  store changed.
\<close>

theorem inbound_block_relay_and_persist:
  assumes tr: "truthy (dict_get data ''block'')"
    and dec: "Block_from_dict K (dict_get data ''block'') = Some b"
  shows "(CoreServer_serve_dispatch K data s = Returned s' \<longrightarrow>
            (PDict [(''block'', Block_to_dict b)] \<in> set (sent (emitted s s')) \<longleftrightarrow>
               check_block K (chain s) b = OK) \<and>
            ((\<exists>obj. (obj, ''blockchain.json'') \<in> set (persisted (emitted s s'))) \<longleftrightarrow>
               fst (add_block K (chain s) b))) \<and>
         (MiningServer_serve_dispatch K data m = Returned m' \<longrightarrow>
            (PDict [(''block'', Block_to_dict b)] \<in> set (sent (emitted m m')) \<longleftrightarrow>
               check_block K (chain m) b = OK) \<and>
            ((\<exists>obj. (obj, ''blockchain.json'') \<in> set (persisted (emitted m m'))) \<longleftrightarrow>
               fst (add_block K (chain m) b)))"
proof (intro conjI impI)
  assume ret: "CoreServer_serve_dispatch K data s = Returned s'"
  from core_dispatch_block [OF tr dec ret] obtain pre where
    "pre = [] \<or> (\<exists>obj. pre = [Send (PDict [(''peers'', dict_get data ''peers'')]),
                                ToDisk obj ''peers.json''])"
    "emitted s s' = pre @
       (if check_block K (chain s) b = OK then [Send (PDict [(''block'', Block_to_dict b)])]
        else []) @
       (if fst (add_block K (chain s) b)
        then [ToDisk (Blockchain_to_dict (snd (add_block K (chain s) b))) ''blockchain.json'']
        else [])"
    by blast
  from block_effects_observed [OF this]
  show "PDict [(''block'', Block_to_dict b)] \<in> set (sent (emitted s s')) \<longleftrightarrow>
          check_block K (chain s) b = OK"
    and "(\<exists>obj. (obj, ''blockchain.json'') \<in> set (persisted (emitted s s'))) \<longleftrightarrow>
          fst (add_block K (chain s) b)"
    by blast+
next
  assume "MiningServer_serve_dispatch K data m = Returned m'"
  from mining_dispatch_core [OF this] obtain m1 where
    ret: "CoreServer_serve_dispatch K data m = Returned m1" and o: "out m' = out m1"
    by blast
  from o have e: "emitted m m' = emitted m m1" by (simp add: emitted_def)
  from core_dispatch_block [OF tr dec ret] obtain pre where
    "pre = [] \<or> (\<exists>obj. pre = [Send (PDict [(''peers'', dict_get data ''peers'')]),
                                ToDisk obj ''peers.json''])"
    "emitted m m1 = pre @
       (if check_block K (chain m) b = OK then [Send (PDict [(''block'', Block_to_dict b)])]
        else []) @
       (if fst (add_block K (chain m) b)
        then [ToDisk (Blockchain_to_dict (snd (add_block K (chain m) b))) ''blockchain.json'']
        else [])"
    by blast
  from block_effects_observed [OF this] e
  show "PDict [(''block'', Block_to_dict b)] \<in> set (sent (emitted m m')) \<longleftrightarrow>
          check_block K (chain m) b = OK"
    and "(\<exists>obj. (obj, ''blockchain.json'') \<in> set (persisted (emitted m m'))) \<longleftrightarrow>
          fst (add_block K (chain m) b)"
    by simp_all
qed

lemma sample_block_decodes:
  "Block_from_dict (sample_ops c v) (dict_get [(''block'', Block_to_dict sample_block)] ''block'') =
     Some sample_block"
  by (simp add: sample_ops_def dict_get_def)

lemma sample_block_truthy:
  "truthy (dict_get [(''block'', Block_to_dict sample_block)] ''block'')"
  by (simp add: dict_get_def Block_to_dict_def)

lemma sample_block_dispatch:
  "CoreServer_serve_dispatch (sample_ops c v) [(''block'', Block_to_dict sample_block)] sample_node =
     Returned (sample_node\<lparr>chain := sample_chain\<lparr>blocks := [(''b1'', sample_block)], chain_hash := Some ''b1''\<rparr>,
        out := (if v = OK then [Send (PDict [(''block'', Block_to_dict sample_block)])] else []) @
               [ToDisk (Blockchain_to_dict (sample_chain\<lparr>blocks := [(''b1'', sample_block)], chain_hash := Some ''b1''\<rparr>))
                  ''blockchain.json'']\<rparr>)"
proof -
  have "dict_get [(''block'', Block_to_dict sample_block)] ''peers'' = PNone"
    by (simp add: dict_get_def)
  moreover have "check_block (sample_ops c v) = (\<lambda>c b. v)"
    "add_block (sample_ops c v) sample_chain sample_block =
       (True, sample_chain\<lparr>blocks := [(''b1'', sample_block)], chain_hash := Some ''b1''\<rparr>)"
    by (simp_all add: sample_ops_def sample_chain_def sample_block_def)
  moreover have "chain sample_node = sample_chain" "out sample_node = []"
    by (simp_all add: sample_node_def)
  ultimately show ?thesis
    using sample_block_truthy sample_block_decodes [of c v]
    by (simp add: CoreServer_serve_dispatch_unfold add_block_hlr_eq)
qed

theorem inbound_block_relay_and_persist_witness:
  "truthy (dict_get [(''block'', Block_to_dict sample_block)] ''block'') \<and>
   Block_from_dict (sample_ops PNone OK) (dict_get [(''block'', Block_to_dict sample_block)] ''block'')
     = Some sample_block \<and>
   check_block (sample_ops PNone OK) (chain sample_node) sample_block = OK \<and>
   fst (add_block (sample_ops PNone OK) (chain sample_node) sample_block) \<and>
   PDict [(''block'', Block_to_dict sample_block)] \<in>
     set (sent (emitted sample_node
       (state_of (CoreServer_serve_dispatch (sample_ops PNone OK)
          [(''block'', Block_to_dict sample_block)] sample_node)))) \<and>
   (\<exists>obj. (obj, ''blockchain.json'') \<in>
     set (persisted (emitted sample_node
       (state_of (CoreServer_serve_dispatch (sample_ops PNone OK)
          [(''block'', Block_to_dict sample_block)] sample_node)))))"
proof -
  let ?K = "sample_ops PNone OK" and ?d = "[(''block'', Block_to_dict sample_block)]"
  let ?s' = "state_of (CoreServer_serve_dispatch ?K ?d sample_node)"
  have ret: "CoreServer_serve_dispatch ?K ?d sample_node = Returned ?s'"
    by (simp add: sample_block_dispatch)
  have ok: "check_block ?K (chain sample_node) sample_block = OK"
    by (simp add: sample_ops_def)
  have ch: "fst (add_block ?K (chain sample_node) sample_block)"
    by (simp add: sample_ops_def sample_node_def sample_chain_def sample_block_def)
  from inbound_block_relay_and_persist [where s = sample_node and s' = ?s'
      and m = "sample_miner None []" and m' = "sample_miner None []",
      OF sample_block_truthy sample_block_decodes [of PNone OK]] ret ok ch
  show ?thesis
    using sample_block_truthy sample_block_decodes [of PNone OK] by simp
qed

subsection \<open>Inbound peer lists\<close>






subsection \<open>Inbound transactions\<close>

lemma populated_keys_peers:
  "truthy pd \<Longrightarrow> populated_keys (PDict [(''peers'', pd)]) = [''peers'']"
  by (simp add: populated_keys_def dict_get_def)

lemma populated_keys_block:
  "populated_keys (PDict [(''block'', Block_to_dict b)]) = [''block'']"
  by (simp add: populated_keys_def dict_get_def Block_to_dict_def)



lemma core_dispatch_sent_shape:
  assumes "msg \<in> set (sent (emitted s (state_of (CoreServer_serve_dispatch K data s))))"
  shows "(truthy (dict_get data ''peers'') \<and> msg = PDict [(''peers'', dict_get data ''peers'')]) \<or>
         (\<exists>b. msg = PDict [(''block'', Block_to_dict b)])"
proof -
  let ?pd = "dict_get data ''peers''" and ?bd = "dict_get data ''block''"
  let ?c = "state_of (CoreServer_serve_dispatch K data s)"
  show ?thesis
  proof (cases "truthy ?pd")
    case False
    then have st: "?c = state_of (if truthy ?bd then add_block_hlr K ?bd s else Returned s)"
      by (simp add: core_dispatch_state)
    from block_stage [of ?bd K s] obtain post where
      "out (state_of (if truthy ?bd then add_block_hlr K ?bd s else Returned s)) = out s @ post"
      and shape: "\<forall>m \<in> set (sent post). \<exists>b. m = PDict [(''block'', Block_to_dict b)]"
      by blast
    then have "emitted s ?c = post"
      by (simp add: st emitted_def)
    with assms shape show ?thesis by auto
  next
    case True
    show ?thesis
    proof (cases "peers_of ?pd")
      case (Inl e)
      with True have "?c = s"
        by (simp add: core_dispatch_state update_peers_hlr_eq)
      with assms show ?thesis by (simp add: emitted_def)
    next
      case (Inr cands)
      from core_dispatch_peers [OF True Inr, of K s] obtain post where
        em: "emitted s ?c =
           (if set cands \<noteq> set (peers (net s))
            then [Send (PDict [(''peers'', ?pd)]),
                  ToDisk (Net_to_dict ((net s)\<lparr>peers := cands\<rparr>)) ''peers.json'']
            else []) @ post"
        and shape: "\<forall>m \<in> set (sent post). \<exists>b. m = PDict [(''block'', Block_to_dict b)]"
        by blast
      from assms have "msg = PDict [(''peers'', ?pd)] \<or> msg \<in> set (sent post)"
        by (simp add: em sent_append split: if_splits)
      with True shape show ?thesis by auto
    qed
  qed
qed

lemma dict_get_filter:
  "key \<noteq> skipped \<Longrightarrow> dict_get (filter (\<lambda>kv. fst kv \<noteq> skipped) data) key = dict_get data key"
  by (induction data) (auto simp: dict_get_def)

lemma core_dispatch_ignores_trans:
  "CoreServer_serve_dispatch K (filter (\<lambda>kv. fst kv \<noteq> ''trans'') data) s =
     CoreServer_serve_dispatch K data s"
proof -
  have "dict_get (filter (\<lambda>kv. fst kv \<noteq> ''trans'') data) ''peers'' = dict_get data ''peers''"
    "dict_get (filter (\<lambda>kv. fst kv \<noteq> ''trans'') data) ''block'' = dict_get data ''block''"
    by (simp_all add: dict_get_filter)
  then show ?thesis
    by (simp add: CoreServer_serve_dispatch_unfold split: outcome.splits)
qed

lemma core_dispatch_trans_only:
  "CoreServer_serve_dispatch K [(''trans'', v)] s = Returned s"
  by (simp add: CoreServer_serve_dispatch_unfold dict_get_def)

lemma core_dispatch_cache:
  assumes "CoreServer_serve_dispatch K data m = Returned m1"
  shows "trans_cache m1 = trans_cache m \<and> block m1 = block m"
proof -
  let ?pd = "dict_get data ''peers''" and ?bd = "dict_get data ''block''"
  let ?stage = "if truthy ?pd then update_peers_hlr K ?pd m else Returned m"
  from assms obtain x where x: "?stage = Returned x"
    by (cases ?stage) (simp_all add: CoreServer_serve_dispatch_unfold)
  have cx: "trans_cache x = trans_cache m \<and> block x = block m"
  proof (cases "truthy ?pd")
    case False
    with x show ?thesis by simp
  next
    case True
    with x show ?thesis
      by (cases "peers_of ?pd") (auto simp: update_peers_hlr_eq)
  qed
  from assms x have r: "(if truthy ?bd then add_block_hlr K ?bd x else Returned x) = Returned m1"
    by (simp add: CoreServer_serve_dispatch_unfold)
  show ?thesis
  proof (cases "truthy ?bd")
    case False
    with r cx show ?thesis by simp
  next
    case True
    with r cx show ?thesis
      by (cases "Block_from_dict K ?bd") (auto simp: add_block_hlr_eq)
  qed
qed

lemma mining_dispatch_caches:
  assumes "truthy (dict_get data ''trans'')"
    and "Transaction_from_dict K (dict_get data ''trans'') = Some t"
    and "MiningServer_serve_dispatch K data m = Returned m'"
  shows "trans_cache m' = trans_cache m @ [t]"
proof -
  from mining_dispatch_core [OF assms(3)] obtain m1 where
    "CoreServer_serve_dispatch K data m = Returned m1"
    "trans_cache m' = trans_cache m1 @ [the (Transaction_from_dict K (dict_get data ''trans''))]"
    using assms(1) by auto
  with core_dispatch_cache [of K data m m1] assms(2) show ?thesis by simp
qed

lemma mining_dispatch_trans_only:
  assumes "truthy td" and "Transaction_from_dict K td = Some t"
  shows "MiningServer_serve_dispatch K [(''trans'', td)] m = Returned (cache_trans t m)"
proof -
  have "dict_get [(''trans'', td)] ''trans'' = td"
    by (simp add: dict_get_def)
  with assms show ?thesis
    by (simp add: MiningServer_serve_dispatch_def core_dispatch_trans_only add_trans_hlr_def)
qed

text \<open>
  Claim C7. For an inbound message whose \<open>trans\<close> key is populated and decodes to the
  transaction \<open>t\<close>: a mining node whose dispatch returns has appended \<open>t\<close> to its cache of
  pending transactions, and it does return so on a message with that key alone. The
  handler map of a non-mining node has the keys \<open>peers\<close> and \<open>block\<close> only: its dispatch is
  the same with the \<open>trans\<close> entries removed, leaves the node as it is on a message with
  that key alone, and broadcasts no message with a populated \<open>trans\<close> key.
\<close>

theorem inbound_trans_cached_by_miners_only:
  "(truthy (dict_get data ''trans'') \<and> Transaction_from_dict K (dict_get data ''trans'') = Some t \<longrightarrow>
      (MiningServer_serve_dispatch K data m = Returned m' \<longrightarrow> trans_cache m' = trans_cache m @ [t]) \<and>
      MiningServer_serve_dispatch K [(''trans'', dict_get data ''trans'')] m = Returned (cache_trans t m)) \<and>
   map fst (hlr_map K :: (string \<times> (pyval \<Rightarrow> CLI \<Rightarrow> CLI outcome)) list) = [''peers'', ''block''] \<and>
   CoreServer_serve_dispatch K (filter (\<lambda>kv. fst kv \<noteq> ''trans'') data) s =
     CoreServer_serve_dispatch K data s \<and>
   CoreServer_serve_dispatch K [(''trans'', v)] s = Returned s \<and>
   (\<forall>msg \<in> set (sent (emitted s (state_of (CoreServer_serve_dispatch K data s)))).
      ''trans'' \<notin> set (populated_keys msg))"
proof -
  have "''trans'' \<notin> set (populated_keys msg)"
    if "msg \<in> set (sent (emitted s (state_of (CoreServer_serve_dispatch K data s))))" for msg
    using core_dispatch_sent_shape [OF that]
    by (auto simp: populated_keys_peers populated_keys_block)
  then show ?thesis
    using mining_dispatch_caches [of data K t m m'] mining_dispatch_trans_only [of _ K t m]
    by (simp add: hlr_map_def core_dispatch_ignores_trans core_dispatch_trans_only)
qed

lemma sample_trans_msg:
  "dict_get [(''trans'', Transaction_to_dict sample_trans)] ''trans'' = Transaction_to_dict sample_trans"
  "truthy (Transaction_to_dict sample_trans)"
  "Transaction_from_dict (sample_ops c v) (Transaction_to_dict sample_trans) = Some sample_trans"
  by (simp_all add: dict_get_def Transaction_to_dict_def sample_ops_def)

theorem inbound_trans_cached_by_miners_only_witness:
  "truthy (dict_get [(''trans'', Transaction_to_dict sample_trans)] ''trans'') \<and>
   Transaction_from_dict (sample_ops PNone OK)
     (dict_get [(''trans'', Transaction_to_dict sample_trans)] ''trans'') = Some sample_trans \<and>
   MiningServer_serve_dispatch (sample_ops PNone OK)
     [(''trans'', Transaction_to_dict sample_trans)] (sample_miner None []) =
     Returned (sample_miner None [sample_trans]) \<and>
   CoreServer_serve_dispatch (sample_ops PNone OK)
     [(''trans'', Transaction_to_dict sample_trans)] sample_node = Returned sample_node"
proof -
  have c: "cache_trans sample_trans (sample_miner None []) = sample_miner None [sample_trans]"
    by (simp add: cache_trans_def sample_miner_def)
  from inbound_trans_cached_by_miners_only [where K = "sample_ops PNone OK"
      and data = "[(''trans'', Transaction_to_dict sample_trans)]" and t = sample_trans
      and m = "sample_miner None []" and m' = "sample_miner None [sample_trans]"
      and s = sample_node and v = "Transaction_to_dict sample_trans"]
  show ?thesis
    by (simp add: sample_trans_msg c)
qed

subsection \<open>Validation does not gate the append\<close>

lemma check_block_update_simps:
  "add_block (K\<lparr>check_block := verdict\<rparr>) = add_block K"
  "Block_from_dict (K\<lparr>check_block := verdict\<rparr>) = Block_from_dict K"
  by simp_all

text \<open>
  Claim C9. For a block solved locally and for a block received from a peer, the chain
  of the node afterwards is the one \<^verbatim>\<open>add_block\<close> returns for that block, whatever
  \<^verbatim>\<open>check_block\<close> says: replacing \<^verbatim>\<open>check_block\<close> by any other function leaves the
  resulting chain unchanged. When \<^verbatim>\<open>check_block\<close> does not return \<open>OK\<close>, nothing is
  broadcast and no reward transaction is cached.
\<close>

theorem add_block_called_whatever_check_block_says:
  "chain (check_and_send K b m) = snd (add_block K (chain m) b) \<and>
   chain (check_and_send (K\<lparr>check_block := verdict\<rparr>) b m) = chain (check_and_send K b m) \<and>
   (check_block K (chain m) b \<noteq> OK \<longrightarrow>
      sent (emitted m (check_and_send K b m)) = [] \<and>
      trans_cache (check_and_send K b m) = trans_cache m) \<and>
   (Block_from_dict K block_dict = Some b \<longrightarrow>
      chain (state_of (add_block_hlr K block_dict s)) = snd (add_block K (chain s) b) \<and>
      add_block_hlr K block_dict s = Returned (state_of (add_block_hlr K block_dict s)) \<and>
      chain (state_of (add_block_hlr (K\<lparr>check_block := verdict\<rparr>) block_dict s)) =
        chain (state_of (add_block_hlr K block_dict s)) \<and>
      (check_block K (chain s) b \<noteq> OK \<longrightarrow>
         sent (emitted s (state_of (add_block_hlr K block_dict s))) = []))"
proof -
  have a: "chain (check_and_send K b m) = snd (add_block K (chain m) b)"
    by (rule check_and_send_chain)
  have b: "chain (check_and_send (K\<lparr>check_block := verdict\<rparr>) b m) = chain (check_and_send K b m)"
    by (simp only: check_and_send_chain check_block_update_simps)
  have c: "sent (emitted m (check_and_send K b m)) = [] \<and>
           trans_cache (check_and_send K b m) = trans_cache m"
    if "check_block K (chain m) b \<noteq> OK"
    using that by (simp add: emitted_def check_and_send_out check_and_send_cache)
  have d: "chain (state_of (add_block_hlr K block_dict s)) = snd (add_block K (chain s) b) \<and>
           add_block_hlr K block_dict s = Returned (state_of (add_block_hlr K block_dict s)) \<and>
           chain (state_of (add_block_hlr (K\<lparr>check_block := verdict\<rparr>) block_dict s)) =
             chain (state_of (add_block_hlr K block_dict s)) \<and>
           (check_block K (chain s) b \<noteq> OK \<longrightarrow>
              sent (emitted s (state_of (add_block_hlr K block_dict s))) = [])"
    if dec: "Block_from_dict K block_dict = Some b"
  proof -
    have "Block_from_dict (K\<lparr>check_block := verdict\<rparr>) block_dict = Some b"
      using dec by simp
    then show ?thesis
      using dec by (simp add: add_block_hlr_eq emitted_def)
  qed
  from a b c d show ?thesis by blast
qed

theorem add_block_called_whatever_check_block_says_witness:
  "check_block (sample_ops PNone (NotOK 0)) (chain (sample_miner (Some sample_block) [])) sample_block \<noteq> OK \<and>
   Block_from_dict (sample_ops PNone (NotOK 0)) (Block_to_dict sample_block) = Some sample_block \<and>
   blocks (chain (check_and_send (sample_ops PNone (NotOK 0)) sample_block
      (sample_miner (Some sample_block) []))) = [(''b1'', sample_block)] \<and>
   sent (emitted (sample_miner (Some sample_block) [])
      (check_and_send (sample_ops PNone (NotOK 0)) sample_block (sample_miner (Some sample_block) []))) = [] \<and>
   blocks (chain (state_of (add_block_hlr (sample_ops PNone (NotOK 0)) (Block_to_dict sample_block)
      sample_node))) = [(''b1'', sample_block)] \<and>
   sent (emitted sample_node (state_of (add_block_hlr (sample_ops PNone (NotOK 0))
      (Block_to_dict sample_block) sample_node))) = []"
proof -
  let ?K = "sample_ops PNone (NotOK 0)" and ?m = "sample_miner (Some sample_block) []"
  have nok: "check_block ?K (chain ?m) sample_block \<noteq> OK"
    "check_block ?K (chain sample_node) sample_block \<noteq> OK"
    by (simp_all add: sample_ops_def)
  have dec: "Block_from_dict ?K (Block_to_dict sample_block) = Some sample_block"
    by (simp add: sample_ops_def)
  have ab: "blocks (snd (add_block ?K (chain ?m) sample_block)) = [(''b1'', sample_block)]"
    "blocks (snd (add_block ?K (chain sample_node) sample_block)) = [(''b1'', sample_block)]"
    by (simp_all add: sample_ops_def sample_miner_def sample_node_def sample_chain_def sample_block_def)
  from add_block_called_whatever_check_block_says [where K = ?K and b = sample_block and m = ?m
      and s = sample_node and block_dict = "Block_to_dict sample_block" and verdict = "\<lambda>c b. OK"]
    nok dec ab
  show ?thesis by simp
qed

subsection \<open>The block template\<close>

lemma foldl_add_trans:
  "foldl (add_trans c) b ts = b\<lparr>transactions := transactions b @ ts\<rparr>"
  by (induction ts arbitrary: b) (simp_all add: add_trans_def)

lemma generate_block_eq:
  "generate_block s =
     s\<lparr>block := Some \<lparr>prev = chain_hash (chain s), transactions = trans_cache s,
                       pow = \<lparr>nonce = None, solver = pub (usr s)\<rparr>\<rparr>,
       trans_cache := []\<rparr>"
  by (simp add: generate_block_def Let_def foldl_add_trans new_block_def)

lemma poll_simps:
  "poll sched 0 s = s"
  "poll (others # sched) (Suc i) s = poll sched i (others s)"
  by (simp_all add: poll_def)

lemma update_block_returns:
  "update_block K sched s = Some r \<Longrightarrow>
     \<exists>i \<le> length sched. \<not> waiting K (poll sched i s) \<and> (\<forall>j < i. waiting K (poll sched j s)) \<and>
        r = generate_block (poll sched i s)"
proof (induction sched arbitrary: s)
  case Nil
  then show ?case by (simp add: poll_simps split: if_splits)
next
  case (Cons others sched)
  show ?case
  proof (cases "waiting K s")
    case False
    with Cons.prems have "r = generate_block s" by simp
    with False have "\<not> waiting K (poll (others # sched) 0 s) \<and>
        (\<forall>j < 0. waiting K (poll (others # sched) j s)) \<and>
        r = generate_block (poll (others # sched) 0 s)"
      by (simp add: poll_simps)
    then show ?thesis by blast
  next
    case True
    with Cons.prems have "update_block K sched (others s) = Some r" by simp
    from Cons.IH [OF this] obtain i where i: "i \<le> length sched"
      "\<not> waiting K (poll sched i (others s))"
      "\<forall>j < i. waiting K (poll sched j (others s))"
      "r = generate_block (poll sched i (others s))"
      by blast
    have "\<forall>j < Suc i. waiting K (poll (others # sched) j s)"
    proof (intro allI impI)
      fix j assume "j < Suc i"
      then show "waiting K (poll (others # sched) j s)"
        using True i(3) by (cases j) (simp_all add: poll_simps)
    qed
    with i have "Suc i \<le> length (others # sched) \<and>
        \<not> waiting K (poll (others # sched) (Suc i) s) \<and>
        (\<forall>j < Suc i. waiting K (poll (others # sched) j s)) \<and>
        r = generate_block (poll (others # sched) (Suc i) s)"
      by (simp add: poll_simps)
    then show ?thesis by blast
  qed
qed

lemma update_block_first_idle:
  "i \<le> length sched \<Longrightarrow> \<not> waiting K (poll sched i s) \<Longrightarrow>
   (\<forall>j < i. waiting K (poll sched j s)) \<Longrightarrow>
   update_block K sched s = Some (generate_block (poll sched i s))"
proof (induction sched arbitrary: s i)
  case Nil
  then show ?case by (simp add: poll_simps)
next
  case (Cons others sched)
  show ?case
  proof (cases i)
    case 0
    with Cons.prems show ?thesis by (simp add: poll_simps)
  next
    case (Suc k)
    with Cons.prems have w: "waiting K s"
      using poll_simps(1) [of "others # sched" s] by (metis zero_less_Suc)
    have "\<forall>j < k. waiting K (poll sched j (others s))"
    proof (intro allI impI)
      fix j assume "j < k"
      then have "Suc j < i" using Suc by simp
      with Cons.prems(3) have "waiting K (poll (others # sched) (Suc j) s)" by blast
      then show "waiting K (poll sched j (others s))" by (simp add: poll_simps)
    qed
    moreover from Cons.prems Suc have "k \<le> length sched"
      "\<not> waiting K (poll sched k (others s))"
      by (simp_all add: poll_simps)
    ultimately have "update_block K sched (others s) = Some (generate_block (poll sched k (others s)))"
      by (rule Cons.IH [rotated 2])
    with w Suc show ?thesis by (simp add: poll_simps)
  qed
qed

lemma update_block_still_waiting:
  "update_block K sched s = None \<longleftrightarrow> (\<forall>i \<le> length sched. waiting K (poll sched i s))"
proof
  assume n: "update_block K sched s = None"
  show "\<forall>i \<le> length sched. waiting K (poll sched i s)"
  proof (rule ccontr)
    assume "\<not> (\<forall>i \<le> length sched. waiting K (poll sched i s))"
    then have ex: "\<exists>i. i \<le> length sched \<and> \<not> waiting K (poll sched i s)" by blast
    define i where "i = (LEAST i. i \<le> length sched \<and> \<not> waiting K (poll sched i s))"
    from ex have p: "i \<le> length sched \<and> \<not> waiting K (poll sched i s)"
      unfolding i_def by (rule LeastI_ex)
    have "\<forall>j < i. waiting K (poll sched j s)"
    proof (intro allI impI)
      fix j assume "j < i"
      then have "\<not> (j \<le> length sched \<and> \<not> waiting K (poll sched j s))"
        unfolding i_def by (rule not_less_Least)
      with \<open>j < i\<close> p show "waiting K (poll sched j s)" by simp
    qed
    with p have "update_block K sched s = Some (generate_block (poll sched i s))"
      by (simp add: update_block_first_idle)
    with n show False by simp
  qed
next
  assume a: "\<forall>i \<le> length sched. waiting K (poll sched i s)"
  show "update_block K sched s = None"
  proof (cases "update_block K sched s")
    case None
    then show ?thesis .
  next
    case (Some r)
    from update_block_returns [OF this] a show ?thesis by blast
  qed
qed

text \<open>
  Claim C5. The block that \<^verbatim>\<open>update_block\<close> creates has the head of the chain as its
  previous hash and the transactions of the pending cache, all of them and in the order
  of the cache, as its transactions; the cache is empty afterwards. This holds for the
  state of the node at the evaluation of the loop condition that ends the wait.
\<close>

theorem update_block_template:
  "block (generate_block s) =
     Some \<lparr>prev = chain_hash (chain s), transactions = trans_cache s,
           pow = \<lparr>nonce = None, solver = pub (usr s)\<rparr>\<rparr> \<and>
   trans_cache (generate_block s) = [] \<and>
   (update_block K sched s = Some s' \<longrightarrow>
      (\<exists>i \<le> length sched. \<exists>b. block s' = Some b \<and>
          prev b = chain_hash (chain (poll sched i s)) \<and>
          transactions b = trans_cache (poll sched i s)) \<and>
      trans_cache s' = [])"
proof -
  have g: "block (generate_block x) =
       Some \<lparr>prev = chain_hash (chain x), transactions = trans_cache x,
             pow = \<lparr>nonce = None, solver = pub (usr x)\<rparr>\<rparr> \<and>
     trans_cache (generate_block x) = []" for x :: "'a MiningServer_scheme"
    by (simp add: generate_block_eq)
  have "(\<exists>i \<le> length sched. \<exists>b. block s' = Some b \<and>
          prev b = chain_hash (chain (poll sched i s)) \<and>
          transactions b = trans_cache (poll sched i s)) \<and>
      trans_cache s' = []"
    if "update_block K sched s = Some s'"
  proof -
    from update_block_returns [OF that] obtain i where
      i: "i \<le> length sched" "s' = generate_block (poll sched i s)"
      by blast
    from i(2) g [of "poll sched i s"] have
      "block s' = Some \<lparr>prev = chain_hash (chain (poll sched i s)),
                        transactions = trans_cache (poll sched i s),
                        pow = \<lparr>nonce = None, solver = pub (usr (poll sched i s))\<rparr>\<rparr>"
      "trans_cache s' = []"
      by simp_all
    with i(1) show ?thesis by auto
  qed
  with g [of s] show ?thesis by blast
qed

lemma sample_not_waiting:
  "\<not> waiting (sample_ops (PInt 0) v) s"
  "\<not> waiting (sample_ops PNone v) s"
  by (simp_all add: waiting_def sample_ops_def)

theorem update_block_template_witness:
  "update_block (sample_ops (PInt 0) OK) [] (sample_miner None [sample_trans]) =
     Some (generate_block (sample_miner None [sample_trans])) \<and>
   block (generate_block (sample_miner None [sample_trans])) =
     Some \<lparr>prev = None, transactions = [sample_trans],
           pow = \<lparr>nonce = None, solver = ''miner-pub''\<rparr>\<rparr> \<and>
   trans_cache (generate_block (sample_miner None [sample_trans])) = []"
proof -
  let ?K = "sample_ops (PInt 0) OK" and ?s = "sample_miner None [sample_trans]"
  have u: "update_block ?K [] ?s = Some (generate_block ?s)"
    by (simp add: sample_not_waiting)
  have f: "chain_hash (chain ?s) = None" "trans_cache ?s = [sample_trans]"
    "pub (usr ?s) = ''miner-pub''"
    by (simp_all add: sample_miner_def sample_chain_def)
  from update_block_template [of ?s ?K "[]" "generate_block ?s"] u f
  show ?thesis by simp
qed

subsection \<open>The wait before a new template\<close>

text \<open>
  \<^verbatim>\<open>update_block\<close> returns with the new block made from the state of the node at the
  first evaluation of the loop condition at which \<^verbatim>\<open>get_block_confirms(self.block)\<close>
  is false in Python's sense, and it is still waiting at the end of a schedule exactly
  when the value was true at every evaluation.
\<close>

lemma update_block_characterisation:
  "(update_block K sched s = Some r \<longleftrightarrow>
      (\<exists>i \<le> length sched.
         \<not> truthy (get_block_confirms K (chain (poll sched i s)) (block (poll sched i s))) \<and>
         (\<forall>j < i. truthy (get_block_confirms K (chain (poll sched j s)) (block (poll sched j s)))) \<and>
         r = generate_block (poll sched i s))) \<and>
   (update_block K sched s = None \<longleftrightarrow>
      (\<forall>i \<le> length sched.
         truthy (get_block_confirms K (chain (poll sched i s)) (block (poll sched i s)))))"
proof -
  have "update_block K sched s = Some r \<longleftrightarrow>
      (\<exists>i \<le> length sched. \<not> waiting K (poll sched i s) \<and> (\<forall>j < i. waiting K (poll sched j s)) \<and>
         r = generate_block (poll sched i s))"
    using update_block_returns [of K sched s r] update_block_first_idle [of _ sched K s]
    by blast
  then show ?thesis
    using update_block_still_waiting [of K sched s] by (simp add: waiting_def)
qed

text \<open>
  Claim C2. The claim, and the comment of the source on the loop (``wait until block
  will be accepted or rejected''), have the node wait while the previous block has no
  confirmation and go on once it has one. The condition of the loop is the reverse:
  whenever \<^verbatim>\<open>get_block_confirms\<close> returns 0 for the previous block, \<^verbatim>\<open>update_block\<close>
  creates the new block at once, without a single \<^verbatim>\<open>await asyncio.sleep(0)\<close>; and
  whenever it returns a count \<open>n > 0\<close> at every evaluation of the condition, the node is
  still waiting at the end of the schedule, however long the schedule.
\<close>

theorem update_block_wait_is_inverted:
  "(get_block_confirms K (chain s) (block s) = PInt 0 \<longrightarrow>
      update_block K sched s = Some (generate_block s)) \<and>
   (0 < n \<and> (\<forall>i \<le> length sched.
        get_block_confirms K (chain (poll sched i s)) (block (poll sched i s)) = PInt n) \<longrightarrow>
      update_block K sched s = None)"
proof -
  have zero: "update_block K sched s = Some (generate_block s)"
    if "get_block_confirms K (chain s) (block s) = PInt 0"
  proof -
    from that have "\<not> waiting K s" by (simp add: waiting_def)
    then show ?thesis by (cases sched) simp_all
  qed
  have pos: "update_block K sched s = None"
    if "0 < n" and "\<forall>i \<le> length sched.
        get_block_confirms K (chain (poll sched i s)) (block (poll sched i s)) = PInt n"
  proof -
    from that have "\<forall>i \<le> length sched. waiting K (poll sched i s)"
      by (simp add: waiting_def)
    then show ?thesis by (simp add: update_block_still_waiting)
  qed
  from zero pos show ?thesis by blast
qed

theorem update_block_wait_is_inverted_witness:
  "block (sample_miner (Some sample_block) []) = Some sample_block \<and>
   get_block_confirms (sample_ops (PInt 0) OK) (chain (sample_miner (Some sample_block) []))
     (block (sample_miner (Some sample_block) [])) = PInt 0 \<and>
   update_block (sample_ops (PInt 0) OK) [id, id] (sample_miner (Some sample_block) []) =
     Some (generate_block (sample_miner (Some sample_block) [])) \<and>
   get_block_confirms (sample_ops (PInt 1) OK) (chain (sample_miner (Some sample_block) []))
     (block (sample_miner (Some sample_block) [])) = PInt 1 \<and>
   update_block (sample_ops (PInt 1) OK) [id, id] (sample_miner (Some sample_block) []) = None"
proof -
  let ?s = "sample_miner (Some sample_block) []"
  have b: "block ?s = Some sample_block"
    by (simp add: sample_miner_def)
  have z: "get_block_confirms (sample_ops (PInt 0) OK) c blk = PInt 0" for c blk
    by (simp add: sample_ops_def)
  have o: "get_block_confirms (sample_ops (PInt 1) OK) c blk = PInt 1" for c blk
    by (simp add: sample_ops_def)
  from update_block_wait_is_inverted [of "sample_ops (PInt 0) OK" ?s "[id, id]" 1] z
  have a: "update_block (sample_ops (PInt 0) OK) [id, id] ?s = Some (generate_block ?s)"
    by blast
  have "(0::int) < 1 \<and> (\<forall>i \<le> length [id :: MiningServer \<Rightarrow> MiningServer, id].
      get_block_confirms (sample_ops (PInt 1) OK) (chain (poll [id, id] i ?s))
        (block (poll [id, id] i ?s)) = PInt 1)"
    by (simp add: o)
  with update_block_wait_is_inverted [of "sample_ops (PInt 1) OK" ?s "[id, id]" 1]
  have n: "update_block (sample_ops (PInt 1) OK) [id, id] ?s = None"
    by blast
  from a n b z o show ?thesis by simp
qed

subsection \<open>Senders of the transactions the node constructs\<close>

lemma main_act_not_reward:
  "main_act py_int kind act_args = Inr a \<Longrightarrow> a \<noteq> Reward n h"
  by (auto simp: main_act_def split: if_splits option.splits)

text \<open>
  Claim C6. The transaction built from the command line has the public key of the user
  as its sender and an action that is not a reward. The reward transaction built after
  a block is solved has no sender and no signature, its action is the reward with the
  current reward of the chain and the hash of the solved block, and its receiver is the
  solver of that block; this is the transaction the mining loop caches.
\<close>

theorem only_reward_has_no_sender:
  "(main_trans py_int u to kind act_args = Inr t \<longrightarrow>
      from_adr t = Some (pub u) \<and> to_adr t = to \<and> (\<forall>n h. act t \<noteq> Reward n h)) \<and>
   from_adr (reward_trans K c b) = None \<and>
   sign (reward_trans K c b) = None \<and>
   act (reward_trans K c b) = Reward (reward K c) (dict_hash K b) \<and>
   to_adr (reward_trans K c b) = solver (pow b) \<and>
   (check_block K (chain m) b = OK \<longrightarrow>
      trans_cache (check_and_send K b m) = trans_cache m @ [reward_trans K (chain m) b])"
proof -
  have "from_adr t = Some (pub u) \<and> to_adr t = to \<and> (\<forall>n h. act t \<noteq> Reward n h)"
    if mt: "main_trans py_int u to kind act_args = Inr t"
  proof (cases "main_act py_int kind act_args")
    case (Inl e)
    with mt show ?thesis by (simp add: main_trans_def)
  next
    case (Inr a)
    with mt have "t = \<lparr>from_adr = Some (pub u), to_adr = to, act = a, hash = None, sign = None\<rparr>"
      by (simp add: main_trans_def)
    with main_act_not_reward [OF Inr] show ?thesis by simp
  qed
  then show ?thesis
    by (simp add: reward_trans_def check_and_send_cache)
qed

theorem only_reward_has_no_sender_witness:
  "main_trans (\<lambda>str. if str = ''5'' then Some 5 else None) \<lparr>pub = ''alice''\<rparr> ''bob'' ''pay'' ''5'' =
     Inr \<lparr>from_adr = Some ''alice'', to_adr = ''bob'', act = Payment 5, hash = None, sign = None\<rparr> \<and>
   from_adr \<lparr>from_adr = Some ''alice'', to_adr = ''bob'', act = Payment 5, hash = None,
             sign = None\<rparr> = Some (pub \<lparr>pub = ''alice''\<rparr>) \<and>
   check_block (sample_ops PNone OK) (chain (sample_miner (Some sample_block) [])) sample_block = OK \<and>
   trans_cache (check_and_send (sample_ops PNone OK) sample_block (sample_miner (Some sample_block) [])) =
     [\<lparr>from_adr = None, to_adr = ''miner-pub'', act = Reward 50 ''b1'', hash = None, sign = None\<rparr>]"
proof -
  let ?K = "sample_ops PNone OK" and ?m = "sample_miner (Some sample_block) []"
  let ?t = "\<lparr>from_adr = Some ''alice'', to_adr = ''bob'', act = Payment 5, hash = None, sign = None\<rparr>"
  have mt: "main_trans (\<lambda>str. if str = ''5'' then Some 5 else None) \<lparr>pub = ''alice''\<rparr>
      ''bob'' ''pay'' ''5'' = Inr ?t"
    by (simp add: main_trans_def main_act_def)
  have ok: "check_block ?K (chain ?m) sample_block = OK"
    by (simp add: sample_ops_def)
  have rt: "reward_trans ?K (chain ?m) sample_block =
      \<lparr>from_adr = None, to_adr = ''miner-pub'', act = Reward 50 ''b1'', hash = None, sign = None\<rparr>"
    by (simp add: reward_trans_def sample_ops_def sample_block_def)
  have c: "trans_cache ?m = []"
    by (simp add: sample_miner_def)
  from only_reward_has_no_sender [where py_int = "\<lambda>str. if str = ''5'' then Some 5 else None"
      and u = "\<lparr>pub = ''alice''\<rparr>" and to = "''bob''" and kind = "''pay''" and act_args = "''5''"
      and t = ?t and K = ?K and m = ?m and b = sample_block and c = "chain ?m"] mt ok rt c
  show ?thesis by simp
qed

subsection \<open>The cache of pending transactions\<close>

lemma deliver_cache:
  assumes "\<forall>data \<in> set datas. truthy (dict_get data ''trans'') \<and>
             Transaction_from_dict K (dict_get data ''trans'') = Some t"
    and "deliver K datas m = Returned m'"
  shows "trans_cache m' = trans_cache m @ replicate (length datas) t"
  using assms
proof (induction datas arbitrary: m)
  case Nil
  then show ?case by simp
next
  case (Cons data rest)
  from Cons.prems(2) obtain m1 where
    d: "MiningServer_serve_dispatch K data m = Returned m1" and r: "deliver K rest m1 = Returned m'"
    by (cases "MiningServer_serve_dispatch K data m") simp_all
  from Cons.prems(1) have "truthy (dict_get data ''trans'')"
    "Transaction_from_dict K (dict_get data ''trans'') = Some t"
    by simp_all
  from mining_dispatch_caches [OF this d] have "trans_cache m1 = trans_cache m @ [t]" .
  moreover from Cons.prems(1) have "\<forall>data \<in> set rest. truthy (dict_get data ''trans'') \<and>
      Transaction_from_dict K (dict_get data ''trans'') = Some t"
    by simp
  from Cons.IH [OF this r] have "trans_cache m' = trans_cache m1 @ replicate (length rest) t" .
  ultimately show ?case by simp
qed

lemma deliver_trans_only:
  assumes "truthy td" and "Transaction_from_dict K td = Some t"
  shows "deliver K (replicate n [(''trans'', td)]) m =
           Returned (m\<lparr>trans_cache := trans_cache m @ replicate n t\<rparr>)"
proof (induction n arbitrary: m)
  case 0
  then show ?case by simp
next
  case (Suc n)
  have "deliver K (replicate (Suc n) [(''trans'', td)]) m =
      deliver K (replicate n [(''trans'', td)]) (cache_trans t m)"
    by (simp add: mining_dispatch_trans_only [OF assms])
  also have "\<dots> = Returned ((cache_trans t m)\<lparr>trans_cache :=
      trans_cache (cache_trans t m) @ replicate n t\<rparr>)"
    by (rule Suc.IH)
  also have "(cache_trans t m)\<lparr>trans_cache := trans_cache (cache_trans t m) @ replicate n t\<rparr> =
      m\<lparr>trans_cache := trans_cache m @ replicate (Suc n) t\<rparr>"
    by (simp add: cache_trans_def replicate_app_Cons_same)
  finally show ?case .
qed

lemma count_list_replicate: "count_list (replicate n t) t = n"
  by (induction n) simp_all

lemma CLI_make_trans_cache:
  "CLI_make_trans K ans typed t m = Returned (t', m1) \<Longrightarrow> trans_cache m1 = trans_cache m"
  by (auto simp: CLI_make_trans_def Let_def send_mining_simps split: if_splits option.splits)

text \<open>
  Claim C10. \<^verbatim>\<open>cache_trans\<close> appends its transaction to the cache whatever the
  transaction and whatever the cache holds. When the messages a mining node handles each
  carry the transaction \<open>t\<close>, the cache grows by one copy of \<open>t\<close> per message and the next
  block created from the cache holds these copies; with messages that carry nothing
  else the node does handle them all. A transaction of the node itself that a peer
  sends back is cached a second time.
\<close>

theorem cache_trans_once_per_delivery:
  "trans_cache (cache_trans t m) = trans_cache m @ [t] \<and>
   ((\<forall>data \<in> set datas. truthy (dict_get data ''trans'') \<and>
        Transaction_from_dict K (dict_get data ''trans'') = Some t) \<and>
    deliver K datas m = Returned m' \<longrightarrow>
      trans_cache m' = trans_cache m @ replicate (length datas) t \<and>
      count_list (trans_cache m') t = count_list (trans_cache m) t + length datas \<and>
      (\<exists>b. block (generate_block m') = Some b \<and>
           count_list (transactions b) t = count_list (trans_cache m) t + length datas)) \<and>
   (truthy td \<and> Transaction_from_dict K td = Some t \<longrightarrow>
      deliver K (replicate n [(''trans'', td)]) m =
        Returned (m\<lparr>trans_cache := trans_cache m @ replicate n t\<rparr>)) \<and>
   (MiningServer_make_trans K ans typed orig m = Returned (t, mid) \<and>
    Transaction_from_dict K (Transaction_to_dict t) = Some t \<longrightarrow>
      MiningServer_serve_dispatch K [(''trans'', Transaction_to_dict t)] mid =
        Returned (mid\<lparr>trans_cache := trans_cache m @ [t, t]\<rparr>))"
proof -
  have a: "trans_cache m' = trans_cache m @ replicate (length datas) t \<and>
      count_list (trans_cache m') t = count_list (trans_cache m) t + length datas \<and>
      (\<exists>b. block (generate_block m') = Some b \<and>
           count_list (transactions b) t = count_list (trans_cache m) t + length datas)"
    if "\<forall>data \<in> set datas. truthy (dict_get data ''trans'') \<and>
          Transaction_from_dict K (dict_get data ''trans'') = Some t"
      and "deliver K datas m = Returned m'"
  proof -
    from deliver_cache [OF that] have c: "trans_cache m' = trans_cache m @ replicate (length datas) t" .
    then have "count_list (trans_cache m') t = count_list (trans_cache m) t + length datas"
      by (simp add: count_list_replicate)
    with c show ?thesis by (simp add: generate_block_eq)
  qed
  have b: "MiningServer_serve_dispatch K [(''trans'', Transaction_to_dict t)] mid =
        Returned (mid\<lparr>trans_cache := trans_cache m @ [t, t]\<rparr>)"
    if mk: "MiningServer_make_trans K ans typed orig m = Returned (t, mid)"
      and dec: "Transaction_from_dict K (Transaction_to_dict t) = Some t"
  proof -
    from mk obtain m0 where c0: "CLI_make_trans K ans typed orig m = Returned (t, m0)"
      and mid: "mid = cache_trans t m0"
      by (cases "CLI_make_trans K ans typed orig m")
         (auto simp: MiningServer_make_trans_def split: prod.splits)
    from CLI_make_trans_cache [OF c0] mid have "trans_cache mid = trans_cache m @ [t]"
      by (simp add: cache_trans_simps)
    moreover have "truthy (Transaction_to_dict t)"
      by (simp add: Transaction_to_dict_def)
    from mining_dispatch_trans_only [OF this dec]
    have "MiningServer_serve_dispatch K [(''trans'', Transaction_to_dict t)] mid =
        Returned (cache_trans t mid)" .
    ultimately show ?thesis by (simp add: cache_trans_def)
  qed
  from a b deliver_trans_only [of td K t n m] show ?thesis
    by (simp only: cache_trans_simps) blast
qed

theorem cache_trans_once_per_delivery_witness:
  "truthy (dict_get [(''trans'', Transaction_to_dict sample_trans)] ''trans'') \<and>
   Transaction_from_dict (sample_ops PNone OK)
     (dict_get [(''trans'', Transaction_to_dict sample_trans)] ''trans'') = Some sample_trans \<and>
   deliver (sample_ops PNone OK)
     [[(''trans'', Transaction_to_dict sample_trans)], [(''trans'', Transaction_to_dict sample_trans)]]
     (sample_miner None [sample_trans]) =
     Returned (sample_miner None [sample_trans, sample_trans, sample_trans]) \<and>
   count_list (trans_cache (sample_miner None [sample_trans, sample_trans, sample_trans])) sample_trans = 3 \<and>
   (\<exists>b. block (generate_block (sample_miner None [sample_trans, sample_trans, sample_trans])) = Some b \<and>
        count_list (transactions b) sample_trans = 3)"
proof -
  let ?K = "sample_ops PNone OK" and ?d = "[(''trans'', Transaction_to_dict sample_trans)]"
  let ?m = "sample_miner None [sample_trans]"
  let ?m' = "sample_miner None [sample_trans, sample_trans, sample_trans]"
  have h: "\<forall>data \<in> set [?d, ?d]. truthy (dict_get data ''trans'') \<and>
      Transaction_from_dict ?K (dict_get data ''trans'') = Some sample_trans"
    by (simp add: sample_trans_msg)
  have c: "cache_trans sample_trans (sample_miner None ts) = sample_miner None (ts @ [sample_trans])"
    for ts
    by (simp add: cache_trans_def sample_miner_def)
  have d: "deliver ?K [?d, ?d] ?m = Returned ?m'"
    by (simp add: mining_dispatch_trans_only [OF sample_trans_msg(2) sample_trans_msg(3)] c)
  have n: "count_list (trans_cache ?m) sample_trans = 1"
    by (simp add: sample_miner_def)
  from cache_trans_once_per_delivery [where K = ?K and datas = "[?d, ?d]" and t = sample_trans
      and m = ?m and m' = ?m' and td = "Transaction_to_dict sample_trans" and n = 0
      and ans = "''n''" and typed = "[]" and orig = sample_trans and mid = ?m] h d
  have r: "count_list (trans_cache ?m') sample_trans =
        count_list (trans_cache ?m) sample_trans + length [?d, ?d] \<and>
      (\<exists>b. block (generate_block ?m') = Some b \<and>
           count_list (transactions b) sample_trans =
             count_list (trans_cache ?m) sample_trans + length [?d, ?d])"
    by blast
  have three: "count_list (trans_cache ?m) sample_trans + length [?d, ?d] = 3"
    by (simp add: n)
  from r have "count_list (trans_cache ?m') sample_trans = 3 \<and>
      (\<exists>b. block (generate_block ?m') = Some b \<and> count_list (transactions b) sample_trans = 3)"
    by (simp only: three)
  with d show ?thesis by (simp add: sample_trans_msg)
qed

subsection \<open>The format of the messages broadcast\<close>









end
